theory Spec2Isabelle
  imports Complex_Main "HOL-Library.Log_Nat"
begin

section \<open>JavaScript values and the built-ins the query translators use\<close>

text \<open>
  The translators of \<^verbatim>\<open>src/lib/filters.js\<close> and \<^verbatim>\<open>src/lib/atlasSearch.js\<close> take
  untyped parameter values. A value is one of the primitives a query string or a plain
  key-value object carries, or an array of them. A number is given by the string that
  \<^verbatim>\<open>String(n)\<close> writes for it, such as \<^verbatim>\<open>12\<close>, \<^verbatim>\<open>-5\<close>, \<^verbatim>\<open>0.5\<close>, \<^verbatim>\<open>1e+21\<close>, \<^verbatim>\<open>NaN\<close> and
  \<^verbatim>\<open>Infinity\<close>: this string and the truthiness of the number are all that the functions
  of \<^verbatim>\<open>filters.js\<close> use of it, so every number, whole or not, small or large, is a value
  of the model. Objects other than arrays are not among the parameter values: the
  conversion \<^verbatim>\<open>String(o)\<close> of an object runs methods of the object. A character of a
  \<open>string\<close> stands for a UTF-16 code unit below 256.
\<close>

datatype jsval =
    Undefined
  | Null
  | Bool bool
  | Number string
  | Str string
  | Arr "jsval list"

text \<open>
  ToBoolean: what \<^verbatim>\<open>if (v)\<close>, \<^verbatim>\<open>!v\<close>, \<^verbatim>\<open>v || d\<close> and \<^verbatim>\<open>Boolean(v)\<close> test. The numbers
  that are not truthy are zero, which is written \<^verbatim>\<open>0\<close> with either sign, and \<^verbatim>\<open>NaN\<close>.
\<close>

fun truthy :: "jsval \<Rightarrow> bool" where
  "truthy Undefined = False"
| "truthy Null = False"
| "truthy (Bool b) = b"
| "truthy (Number s) = (s \<noteq> ''0'' \<and> s \<noteq> ''NaN'')"
| "truthy (Str s) = (s \<noteq> [])"
| "truthy (Arr xs) = True"

text \<open>
  White space as \<^verbatim>\<open>String.prototype.trim\<close> and \<^verbatim>\<open>parseInt\<close> skip it, among the code
  units below 256: TAB, LF, VT, FF, CR, SP and NBSP.
\<close>

definition is_space :: "char \<Rightarrow> bool" where
  "is_space c = (c \<in> set [CHR 0x09, CHR 0x0A, CHR 0x0B, CHR 0x0C, CHR 0x0D, CHR 0x20, CHR 0xA0])"

definition is_digit :: "char \<Rightarrow> bool" where
  "is_digit c = (c \<in> set ''0123456789'')"

text \<open>The class \<^verbatim>\<open>[\x00-\x1F\x7F]\<close> of \<^verbatim>\<open>sanitizeString\<close>.\<close>

definition is_control :: "char \<Rightarrow> bool" where
  "is_control c = ((of_char c :: nat) \<le> 0x1F \<or> (of_char c :: nat) = 0x7F)"

definition trim :: "string \<Rightarrow> string" where
  "trim s = rev (dropWhile is_space (rev (dropWhile is_space s)))"

text \<open>
  \<^verbatim>\<open>toLowerCase\<close> on code units below 256: the ASCII capitals and the Latin-1 capitals
  (0xC0 to 0xDE without the multiplication sign 0xD7) move up by 0x20.
\<close>

definition lower_char :: "char \<Rightarrow> char" where
  "lower_char c =
     (let n = (of_char c :: nat)
      in if (0x41 \<le> n \<and> n \<le> 0x5A) \<or> (0xC0 \<le> n \<and> n \<le> 0xDE \<and> n \<noteq> 0xD7)
         then char_of (n + 0x20) else c)"

definition toLowerCase :: "string \<Rightarrow> string" where
  "toLowerCase s = map lower_char s"

text \<open>The decimal numeral of a natural number, most significant digit first.\<close>

fun digits_of :: "nat \<Rightarrow> string" where
  "digits_of n =
     (if n < 10 then [''0123456789'' ! n]
      else digits_of (n div 10) @ [''0123456789'' ! (n mod 10)])"

fun join_comma :: "string list \<Rightarrow> string" where
  "join_comma [] = []"
| "join_comma [s] = s"
| "join_comma (s # t # ss) = s @ CHR '','' # join_comma (t # ss)"

text \<open>
  The string of a whole number below 1e21 in magnitude is its decimal numeral. From 1e21
  on \<^verbatim>\<open>String(n)\<close> is in exponent form.
\<close>

definition decimal :: "int \<Rightarrow> string" where
  "decimal n = (if n < 0 then CHR ''-'' # digits_of (nat (- n)) else digits_of (nat n))"

text \<open>
  \<^verbatim>\<open>String(v)\<close>. An array is joined with commas, an \<^verbatim>\<open>undefined\<close> or \<^verbatim>\<open>null\<close>
  element giving the empty string.
\<close>

fun js_String :: "jsval \<Rightarrow> string" where
  "js_String Undefined = ''undefined''"
| "js_String Null = ''null''"
| "js_String (Bool b) = (if b then ''true'' else ''false'')"
| "js_String (Number s) = s"
| "js_String (Str s) = s"
| "js_String (Arr xs) =
     join_comma (map (\<lambda>x. if x = Undefined \<or> x = Null then [] else js_String x) xs)"

text \<open>
  The integer that \<^verbatim>\<open>parseInt(s, 10)\<close> reads: leading white space is skipped, one sign
  is read, and the longest run of decimal digits that follows is the integer; \<open>None\<close>
  says that there is no digit. Whatever follows the digits is ignored.
\<close>

definition digit_val :: "char \<Rightarrow> int" where
  "digit_val c = of_char c - 48"

definition int_of_digits :: "string \<Rightarrow> int" where
  "int_of_digits ds = foldl (\<lambda>a c. 10 * a + digit_val c) 0 ds"

definition read_int :: "string \<Rightarrow> int option" where
  "read_int s =
     (let t = dropWhile is_space s;
          neg = (case t of [] \<Rightarrow> False | c # r \<Rightarrow> c = CHR ''-'');
          r = (case t of [] \<Rightarrow> [] | c # r \<Rightarrow> if c = CHR ''-'' \<or> c = CHR ''+'' then r else t);
          ds = takeWhile is_digit r
      in if ds = [] then None
         else Some (if neg then - int_of_digits ds else int_of_digits ds))"

text \<open>
  The numbers that \<^verbatim>\<open>parseInt\<close> returns and that the list options are computed with
  are doubles without a fraction: whole numbers, the two infinities and \<^verbatim>\<open>NaN\<close>. Zero
  stands for both zeros of the language, which the code here does not tell apart.
\<close>

datatype number = Whole int | PosInf | NegInf | NotANumber

text \<open>
  Every integer of at most 53 bits is a number. An integer \<open>m\<close> of more bits is taken to
  the nearest number: \<open>e\<close> bits are cut off to leave 53, the rest \<open>r\<close> decides whether the
  53 bits \<open>q\<close> are rounded up, to the even side where \<open>m\<close> lies halfway between two
  numbers, and what reaches \<open>2 ^ 1024\<close> is infinite. The result of a subtraction or a
  multiplication of whole numbers is the number for the exact result, and so is what
  \<^verbatim>\<open>parseInt\<close> returns for the integer it reads (past the twentieth digit the language
  leaves the last bit to the implementation).
\<close>

definition SAFE :: int where "SAFE = 2 ^ 53"

definition nearest :: "int \<Rightarrow> number" where
  "nearest m =
     (let e = nat (bitlen m - 53); q = m div 2 ^ e; r = m mod 2 ^ e;
          q' = (if 2 * r > 2 ^ e \<or> (2 * r = 2 ^ e \<and> q mod 2 = 1) then q + 1 else q)
      in if q' * 2 ^ e \<ge> 2 ^ 1024 then PosInf else Whole (q' * 2 ^ e))"

fun negate :: "number \<Rightarrow> number" where
  "negate (Whole m) = Whole (- m)"
| "negate PosInf = NegInf"
| "negate NegInf = PosInf"
| "negate NotANumber = NotANumber"

definition number_of :: "int \<Rightarrow> number" where
  "number_of m = (if m < 0 then negate (nearest (- m)) else nearest m)"

text \<open>\<^verbatim>\<open>parseInt(s, 10)\<close>: the number for the integer read, \<^verbatim>\<open>NaN\<close> when there is none.\<close>

definition js_parseInt :: "string \<Rightarrow> number" where
  "js_parseInt s = (case read_int s of None \<Rightarrow> NotANumber | Some m \<Rightarrow> number_of m)"

text \<open>
  The comparisons \<^verbatim>\<open>x < y\<close> and \<^verbatim>\<open>x <= y\<close>, the difference \<^verbatim>\<open>x - y\<close> and the product
  \<^verbatim>\<open>x * y\<close> of such numbers. A comparison with \<^verbatim>\<open>NaN\<close> is false.
\<close>

fun js_less :: "number \<Rightarrow> number \<Rightarrow> bool" where
  "js_less NotANumber y = False"
| "js_less x NotANumber = False"
| "js_less (Whole a) (Whole b) = (a < b)"
| "js_less PosInf y = False"
| "js_less x NegInf = False"
| "js_less x PosInf = True"
| "js_less NegInf y = True"

definition js_le :: "number \<Rightarrow> number \<Rightarrow> bool" where
  "js_le x y = (x \<noteq> NotANumber \<and> y \<noteq> NotANumber \<and> \<not> js_less y x)"

fun js_minus :: "number \<Rightarrow> number \<Rightarrow> number" where
  "js_minus NotANumber y = NotANumber"
| "js_minus x NotANumber = NotANumber"
| "js_minus (Whole a) (Whole b) = number_of (a - b)"
| "js_minus PosInf PosInf = NotANumber"
| "js_minus NegInf NegInf = NotANumber"
| "js_minus PosInf y = PosInf"
| "js_minus NegInf y = NegInf"
| "js_minus x PosInf = NegInf"
| "js_minus x NegInf = PosInf"

fun sign_of :: "number \<Rightarrow> int" where
  "sign_of (Whole a) = sgn a"
| "sign_of PosInf = 1"
| "sign_of NegInf = - 1"
| "sign_of NotANumber = 0"

fun js_times :: "number \<Rightarrow> number \<Rightarrow> number" where
  "js_times NotANumber y = NotANumber"
| "js_times x NotANumber = NotANumber"
| "js_times (Whole a) (Whole b) = number_of (a * b)"
| "js_times x y =
     (if sign_of x * sign_of y = 0 then NotANumber
      else if sign_of x * sign_of y > 0 then PosInf else NegInf)"

text \<open>A number that is at least \<open>b\<close>: a whole number from \<open>b\<close> on, or infinity.\<close>

definition at_least :: "int \<Rightarrow> number \<Rightarrow> bool" where
  "at_least b x = (case x of Whole v \<Rightarrow> b \<le> v | PosInf \<Rightarrow> True | _ \<Rightarrow> False)"

section \<open>The parsers of filters.js\<close>

definition DEFAULT_PAGE :: int where "DEFAULT_PAGE = 1"
definition DEFAULT_LIMIT :: int where "DEFAULT_LIMIT = 12"
definition MAX_LIMIT :: int where "MAX_LIMIT = 200"

text \<open>\<^verbatim>\<open>val.replace(/[\x00-\x1F\x7F]/g, '').trim()\<close> on a string.\<close>

definition sanitized :: "string \<Rightarrow> string" where
  "sanitized s = trim (filter (\<lambda>c. \<not> is_control c) s)"

definition sanitizeString :: "jsval \<Rightarrow> jsval" where
  "sanitizeString val = (case val of Str s \<Rightarrow> Str (sanitized s) | _ \<Rightarrow> val)"

text \<open>
  \<^verbatim>\<open>parseInteger(val, fallback)\<close> returns the fallback, whatever it is, or the number
  that \<^verbatim>\<open>parseInt\<close> returned, which is not \<^verbatim>\<open>NaN\<close> then.
\<close>

datatype 'a or_fallback = Fallback 'a | Parsed number

definition parseInteger :: "jsval \<Rightarrow> 'a \<Rightarrow> 'a or_fallback" where
  "parseInteger val fallback =
     (if val = Undefined \<or> val = Null \<or> val = Str [] then Fallback fallback
      else let n = js_parseInt (js_String val)
           in if n = NotANumber then Fallback fallback else Parsed n)"

text \<open>\<^verbatim>\<open>parseBoolean(val, fallback)\<close> returns a boolean or the fallback value.\<close>

definition parseBoolean :: "jsval \<Rightarrow> jsval \<Rightarrow> jsval" where
  "parseBoolean val fallback =
     (if val = Undefined \<or> val = Null \<or> val = Str [] then fallback
      else case val of
        Bool b \<Rightarrow> val
      | _ \<Rightarrow>
        (let s = trim (toLowerCase (js_String val))
         in if s = ''1'' \<or> s = ''true'' \<or> s = ''yes'' then Bool True
            else if s = ''0'' \<or> s = ''false'' \<or> s = ''no'' then Bool False
            else fallback))"

text \<open>\<^verbatim>\<open>s.split(',')\<close>: the pieces between the commas, at least one piece.\<close>

fun split_comma :: "string \<Rightarrow> string list" where
  "split_comma [] = [[]]"
| "split_comma (c # cs) =
     (if c = CHR '','' then [] # split_comma cs
      else (case split_comma cs of [] \<Rightarrow> [[c]] | p # ps \<Rightarrow> (c # p) # ps))"

definition parseList :: "jsval \<Rightarrow> jsval list" where
  "parseList val =
     (if \<not> truthy val then []
      else case val of
        Arr xs \<Rightarrow> filter truthy (map sanitizeString xs)
      | _ \<Rightarrow> filter truthy (map (\<lambda>p. sanitizeString (Str p)) (split_comma (js_String val))))"

text \<open>
  A \<^verbatim>\<open>Date\<close> object holds a time value in milliseconds or is invalid (time value
  \<^verbatim>\<open>NaN\<close>). A number that reaches \<^verbatim>\<open>new Date(x)\<close> or comes out of \<^verbatim>\<open>Number(s)\<close> and
  \<^verbatim>\<open>Date.parse(s)\<close> is \<^verbatim>\<open>NaN\<close>, infinite or finite. TimeClip makes the date invalid
  beyond 8.64e15 ms and drops the fraction of a millisecond.
\<close>

datatype jsdate = Date int | InvalidDate

datatype jsnumber = NaN | Infinite | Finite rat

definition MAX_TIME :: int where "MAX_TIME = 8640000000000000"

definition new_Date :: "jsnumber \<Rightarrow> jsdate" where
  "new_Date x =
     (case x of
        NaN \<Rightarrow> InvalidDate
      | Infinite \<Rightarrow> InvalidDate
      | Finite q \<Rightarrow>
          if \<bar>q\<bar> > of_int MAX_TIME then InvalidDate
          else Date (if q < 0 then - \<lfloor>- q\<rfloor> else \<lfloor>q\<rfloor>))"

text \<open>
  What \<^verbatim>\<open>parseDate\<close> takes from the runtime: the clock read by \<^verbatim>\<open>new Date()\<close>, the
  string-to-number conversion \<^verbatim>\<open>Number(s)\<close>, whose results are doubles, and the date
  parser behind \<^verbatim>\<open>new Date(s)\<close>, which the language fixes for ISO-8601 strings only.
  They are parameters of the model.
\<close>

record platform =
  clock :: int
  to_number :: "string \<Rightarrow> jsnumber"
  date_parse :: "string \<Rightarrow> jsnumber"

text \<open>
  The match of \<^verbatim>\<open>/^last(\d+)([dhmy])$/i\<close>: the two groups, the digits and the unit
  letter as written. Ignoring case, only \<^verbatim>\<open>L A S T\<close> and \<^verbatim>\<open>D H M Y\<close> match the letters
  of the pattern.
\<close>

definition match_relative :: "string \<Rightarrow> (string \<times> char) option" where
  "match_relative s =
     (let rest = drop 4 s; ds = butlast rest
      in if map lower_char (take 4 s) = ''last'' \<and> ds \<noteq> [] \<and> list_all is_digit ds
            \<and> lower_char (last rest) \<in> set ''dhmy''
         then Some (ds, last rest) else None)"

text \<open>
  \<^verbatim>\<open>new Date(now.getTime() - n * k)\<close>, where \<open>n\<close> is what \<^verbatim>\<open>parseInt\<close> read. The
  relative branch returns this date without testing that it is valid. The date is
  computed here with the integers. The clock is a time value, a whole number of at most
  8.64e15 in magnitude, and with such a clock this is the date that the arithmetic of
  numbers gives (\<open>ago_in_numbers\<close> below, where \<open>n\<close> is the number that \<^verbatim>\<open>parseInt\<close>
  returned and the product \<^verbatim>\<open>n * 24 * 60 * 60 * 1000\<close> is multiplied out from the left):
  that arithmetic is exact wherever the difference lies in the range of \<^verbatim>\<open>Date\<close>, and
  wherever the difference lies beyond it the number computed lies beyond it or is no
  number, and the date is invalid.
\<close>

definition ago :: "platform \<Rightarrow> int option \<Rightarrow> int \<Rightarrow> jsdate" where
  "ago P n k =
     (case n of
        None \<Rightarrow> InvalidDate
      | Some m \<Rightarrow> new_Date (Finite (of_int (clock P - m * k))))"

text \<open>
  \<^verbatim>\<open>new Date(x)\<close> for a number \<open>x\<close> of the arithmetic, and the date of the relative
  branch computed with numbers: \<open>ks\<close> are the factors of \<^verbatim>\<open>n * 24 * 60 * 60 * 1000\<close>
  behind \<open>n\<close>.
\<close>

definition date_of_number :: "number \<Rightarrow> jsdate" where
  "date_of_number x = (case x of Whole t \<Rightarrow> new_Date (Finite (of_int t)) | _ \<Rightarrow> InvalidDate)"

definition ago_in_numbers :: "platform \<Rightarrow> number \<Rightarrow> int list \<Rightarrow> jsdate" where
  "ago_in_numbers P n ks =
     date_of_number (js_minus (Whole (clock P)) (foldl (\<lambda>x k. js_times x (Whole k)) n ks))"

text \<open>\<^verbatim>\<open>isNaN(d.getTime()) ? null : d\<close>\<close>

definition valid_or_null :: "jsdate \<Rightarrow> jsdate option" where
  "valid_or_null d = (if d = InvalidDate then None else Some d)"

text \<open>\<^verbatim>\<open>parseDate(val)\<close>; \<open>None\<close> is \<^verbatim>\<open>null\<close>.\<close>

definition parseDate :: "platform \<Rightarrow> jsval \<Rightarrow> jsdate option" where
  "parseDate P val =
     (if \<not> truthy val then None
      else
        let s = trim (js_String val)
        in case match_relative s of
             Some (ds, u) \<Rightarrow>
               (let n = read_int ds; unit = lower_char u
                in if unit = CHR ''d'' then Some (ago P n (24 * 60 * 60 * 1000))
                   else if unit = CHR ''h'' then Some (ago P n (60 * 60 * 1000))
                   else if unit = CHR ''m'' then Some (ago P n (30 * 24 * 60 * 60 * 1000))
                   else if unit = CHR ''y'' then Some (ago P n (365 * 24 * 60 * 60 * 1000))
                   else None)
           | None \<Rightarrow>
               (let asNum = to_number P s
                in if asNum \<noteq> NaN \<and> length s \<ge> 10 then valid_or_null (new_Date asNum)
                   else valid_or_null (new_Date (date_parse P s))))"

section \<open>Query documents\<close>

text \<open>
  The objects the translators build: filter objects, sort orders and pipeline stages.
  An object is the list of its properties in insertion order. \<open>Val v\<close> is a parameter
  value that went into the document as it came, \<open>NumV n\<close> a number that the code wrote
  or computed, and \<open>Builtin k\<close> the member \<open>k\<close> that every object literal inherits from
  \<^verbatim>\<open>Object.prototype\<close>.
\<close>

datatype doc =
    Val jsval
  | NumV number
  | DateV jsdate
  | RegExpV string string
  | Builtin string
  | ArrV "doc list"
  | ObjV "(string \<times> doc) list"

fun truthy_doc :: "doc \<Rightarrow> bool" where
  "truthy_doc (Val v) = truthy v"
| "truthy_doc (NumV n) = (n \<noteq> Whole 0 \<and> n \<noteq> NotANumber)"
| "truthy_doc (DateV d) = True"
| "truthy_doc (RegExpV p f) = True"
| "truthy_doc (Builtin k) = True"
| "truthy_doc (ArrV ds) = True"
| "truthy_doc (ObjV kvs) = True"

type_synonym obj = "(string \<times> doc) list"

text \<open>
  \<^verbatim>\<open>o.k = v\<close> keeps the place of a property that exists and appends a new one;
  \<^verbatim>\<open>delete o.k\<close> removes it.
\<close>

fun obj_set :: "string \<Rightarrow> doc \<Rightarrow> obj \<Rightarrow> obj" where
  "obj_set k v [] = [(k, v)]"
| "obj_set k v (p # ps) = (if fst p = k then (k, v) # ps else p # obj_set k v ps)"

definition obj_delete :: "string \<Rightarrow> obj \<Rightarrow> obj" where
  "obj_delete k ps = filter (\<lambda>p. fst p \<noteq> k) ps"

definition obj_keys :: "obj \<Rightarrow> string list" where
  "obj_keys ps = map fst ps"

text \<open>A parameter bag: the value of each property, \<open>Undefined\<close> where it has none.\<close>

type_synonym params = "string \<Rightarrow> jsval"

definition no_params :: params where
  "no_params = (\<lambda>k. Undefined)"

text \<open>
  The argument of a builder: left out, which is the same as \<^verbatim>\<open>undefined\<close> and takes the
  default \<^verbatim>\<open>{}\<close> of the parameter, \<^verbatim>\<open>null\<close>, which takes no default, or an object. A
  primitive other than these two has none of the properties that the builders read and
  is treated by them as the empty object is.
\<close>

datatype 'a argument = Omitted | Null_given | Given 'a

datatype error = SyntaxError | TypeError

text \<open>
  A parameter with the default \<open>d\<close> whose properties are read, by a destructuring
  \<^verbatim>\<open>const { a, b } = opts\<close> or as \<^verbatim>\<open>query.get\<close>, with no test before: the read raises a
  \<^verbatim>\<open>TypeError\<close> on \<^verbatim>\<open>null\<close>.
\<close>

definition properties_of :: "'a \<Rightarrow> 'a argument \<Rightarrow> error + 'a" where
  "properties_of d a =
     (case a of Omitted \<Rightarrow> Inr d | Null_given \<Rightarrow> Inl TypeError | Given x \<Rightarrow> Inr x)"

section \<open>List options\<close>

definition desc :: doc where "desc = NumV (Whole (- 1))"
definition asc :: doc where "asc = NumV (Whole 1)"

definition SORT_MAP :: obj where
  "SORT_MAP =
     [(''score'', ObjV [(''score'', desc), (''downloads'', desc), (''createdAt'', desc)]),
      (''downloads'', ObjV [(''downloads'', desc), (''createdAt'', desc)]),
      (''latest'', ObjV [(''createdAt'', desc)]),
      (''oldest'', ObjV [(''createdAt'', asc)]),
      (''price_asc'', ObjV [(''price'', asc)]),
      (''price_desc'', ObjV [(''price'', desc)])]"

text \<open>
  \<^verbatim>\<open>SORT_MAP\<close> is an object literal, so a property read \<^verbatim>\<open>SORT_MAP[k]\<close> that finds no
  own property goes on to \<^verbatim>\<open>Object.prototype\<close>, whose members are these.
\<close>

definition object_prototype_keys :: "string list" where
  "object_prototype_keys =
     [''constructor'', ''hasOwnProperty'', ''isPrototypeOf'', ''propertyIsEnumerable'',
      ''toLocaleString'', ''toString'', ''valueOf'', ''__proto__'',
      ''__defineGetter__'', ''__defineSetter__'', ''__lookupGetter__'', ''__lookupSetter__'']"

definition SORT_MAP_get :: "string \<Rightarrow> doc" where
  "SORT_MAP_get k =
     (case map_of SORT_MAP k of
        Some d \<Rightarrow> d
      | None \<Rightarrow> if k \<in> set object_prototype_keys then Builtin k else Val Undefined)"

record list_options =
  lo_skip :: number
  lo_limit :: number
  lo_sort :: doc
  lo_page :: number

text \<open>
  \<^verbatim>\<open>buildListOptions(opts = {})\<close>, which goes on with \<^verbatim>\<open>opts || {}\<close>, so that \<^verbatim>\<open>null\<close>
  is read as the empty object. The defaults of the destructuring apply to properties
  that are \<^verbatim>\<open>undefined\<close>; they are the numbers 1 and 12.
\<close>

definition buildListOptions :: "params argument \<Rightarrow> list_options" where
  "buildListOptions opts0 =
     (let opts = (case opts0 of Omitted \<Rightarrow> no_params | Null_given \<Rightarrow> no_params | Given ps \<Rightarrow> ps);
          page0 = (if opts ''page'' = Undefined then Number (decimal DEFAULT_PAGE)
                   else opts ''page'');
          limit0 = (if opts ''limit'' = Undefined then Number (decimal DEFAULT_LIMIT)
                    else opts ''limit'');
          sort0 = (if opts ''sort'' = Undefined then Str ''score'' else opts ''sort'');
          page1 = (case parseInteger page0 DEFAULT_PAGE of
                     Fallback d \<Rightarrow> Whole d | Parsed n \<Rightarrow> n);
          limit1 = (case parseInteger limit0 DEFAULT_LIMIT of
                      Fallback d \<Rightarrow> Whole d | Parsed n \<Rightarrow> n);
          limit2 = (if js_le limit1 (Whole 0) then Whole DEFAULT_LIMIT else limit1);
          limit3 = (if js_less (Whole MAX_LIMIT) limit2 then Whole MAX_LIMIT else limit2);
          page2 = (if js_le page1 (Whole 0) then Whole DEFAULT_PAGE else page1);
          skip = js_times (js_minus page2 (Whole 1)) limit3;
          sortKey = (case sort0 of
                       Str s \<Rightarrow> if truthy_doc (SORT_MAP_get s) then s else ''score''
                     | _ \<Rightarrow> ''score'');
          sortObj = (if truthy_doc (SORT_MAP_get sortKey) then SORT_MAP_get sortKey
                     else SORT_MAP_get ''score'')
      in \<lparr>lo_skip = skip, lo_limit = limit3, lo_sort = sortObj, lo_page = page2\<rparr>)"

section \<open>The filter builder\<close>

text \<open>
  The keyword fallback compiles a pattern from user input. The characters that
  \<^verbatim>\<open>kw.replace(/[.*+?^${}()|[\]\\]/g, '\\$&')\<close> escapes are the fourteen syntax characters
  of the pattern language.
\<close>

definition backslash :: char where
  "backslash = CHR 0x5C"

definition syntax_chars :: "char list" where
  "syntax_chars =
     [CHR ''.'', CHR ''*'', CHR ''+'', CHR ''?'', CHR ''^'', CHR ''$'', CHR ''{'', CHR ''}'',
      CHR ''('', CHR '')'', CHR ''|'', CHR ''['', CHR '']'', backslash]"

definition escape_regex :: "string \<Rightarrow> string" where
  "escape_regex s = concat (map (\<lambda>c. if c \<in> set syntax_chars then [backslash, c] else [c]) s)"

text \<open>
  The pattern language, as far as it is used here: a pattern that consists of characters
  other than syntax characters and of syntax characters each behind a backslash compiles,
  and matches its text, read without the backslashes, anywhere in the subject.
  \<open>literal_text\<close> reads that text. No other pattern is modelled: for those the model
  raises the error that a malformed pattern raises.
\<close>

fun literal_text :: "string \<Rightarrow> string option" where
  "literal_text [] = Some []"
| "literal_text [c] = (if c \<in> set syntax_chars then None else Some [c])"
| "literal_text (c # d # cs) =
     (if c = backslash
      then (if d \<in> set syntax_chars then map_option ((#) d) (literal_text cs) else None)
      else if c \<in> set syntax_chars then None
      else map_option ((#) c) (literal_text (d # cs)))"

definition new_RegExp :: "string \<Rightarrow> string \<Rightarrow> error + doc" where
  "new_RegExp pattern flags =
     (case literal_text pattern of
        None \<Rightarrow> Inl SyntaxError
      | Some t \<Rightarrow> Inr (RegExpV pattern flags))"

text \<open>
  Matching with the flag \<^verbatim>\<open>i\<close> compares canonicalised code units: the upper-case form,
  which among the code units below 256 moves the ASCII and the Latin-1 small letters
  (0xE0 to 0xFE without the division sign 0xF7) down by 0x20.
\<close>

definition canonicalize :: "char \<Rightarrow> char" where
  "canonicalize c =
     (let n = (of_char c :: nat)
      in if (0x61 \<le> n \<and> n \<le> 0x7A) \<or> (0xE0 \<le> n \<and> n \<le> 0xFE \<and> n \<noteq> 0xF7)
         then char_of (n - 0x20) else c)"

fun has_substring :: "'a list \<Rightarrow> 'a list \<Rightarrow> bool" where
  "has_substring t [] = (t = [])"
| "has_substring t (c # cs) = (take (length t) (c # cs) = t \<or> has_substring t cs)"

definition regex_test :: "doc \<Rightarrow> string \<Rightarrow> bool" where
  "regex_test re subject =
     (case re of
        RegExpV pattern flags \<Rightarrow>
          (case literal_text pattern of
             None \<Rightarrow> False
           | Some t \<Rightarrow>
               if CHR ''i'' \<in> set flags
               then has_substring (map canonicalize t) (map canonicalize subject)
               else has_substring t subject)
      | _ \<Rightarrow> False)"

text \<open>
  The statements of \<^verbatim>\<open>buildMongoFilters\<close>, one definition for each block of the
  function body, in the order of the source. Each takes the parameter bag and the filter
  object built so far.
\<close>

definition language_step :: "params \<Rightarrow> obj \<Rightarrow> obj" where
  "language_step opts filters =
     (if truthy (opts ''language'')
      then obj_set ''language'' (Val (sanitizeString (opts ''language''))) filters
      else filters)"

definition category_step :: "params \<Rightarrow> obj \<Rightarrow> obj" where
  "category_step opts filters =
     (if truthy (opts ''category'')
      then obj_set ''category'' (Val (sanitizeString (opts ''category''))) filters
      else filters)"

text \<open>
  \<^verbatim>\<open>Array.isArray(tags) && tags.length\<close>, else \<^verbatim>\<open>typeof tags === 'string' && tags.trim()\<close>.
  The blocks for \<^verbatim>\<open>tags\<close> and \<^verbatim>\<open>locations\<close> are the same code on two names.
\<close>

definition in_list :: "jsval list \<Rightarrow> doc" where
  "in_list xs = ObjV [(''$in'', Val (Arr xs))]"

definition membership_step :: "string \<Rightarrow> params \<Rightarrow> obj \<Rightarrow> obj" where
  "membership_step name opts filters =
     (case opts name of
        Arr xs \<Rightarrow>
          if xs \<noteq> [] then obj_set name (in_list (map sanitizeString xs)) filters
          else filters
      | Str s \<Rightarrow>
          if trim s \<noteq> []
          then (let arr = parseList (Str s)
                in if arr \<noteq> [] then obj_set name (in_list arr) filters else filters)
          else filters
      | _ \<Rightarrow> filters)"

definition tags_step :: "params \<Rightarrow> obj \<Rightarrow> obj" where
  "tags_step = membership_step ''tags''"

definition locations_step :: "params \<Rightarrow> obj \<Rightarrow> obj" where
  "locations_step = membership_step ''locations''"

definition isPaid_step :: "params \<Rightarrow> obj \<Rightarrow> obj" where
  "isPaid_step opts filters =
     (if opts ''isPaid'' \<noteq> Undefined \<and> opts ''isPaid'' \<noteq> Null
      then obj_set ''isPaid'' (Val (Bool (truthy (opts ''isPaid'')))) filters
      else filters)"

definition downloads_step :: "params \<Rightarrow> obj \<Rightarrow> obj" where
  "downloads_step opts filters =
     (case parseInteger (opts ''minDownloads'') Null of
        Fallback d \<Rightarrow> filters
      | Parsed minD \<Rightarrow> obj_set ''downloads'' (ObjV [(''$gte'', NumV minD)]) filters)"

text \<open>
  A date range: the object is stored empty, the bounds that are there are written into
  it, and it is deleted again if it stayed empty.
\<close>

definition range_step :: "string \<Rightarrow> jsdate option \<Rightarrow> jsdate option \<Rightarrow> obj \<Rightarrow> obj" where
  "range_step name from to filters =
     (if from \<noteq> None \<or> to \<noteq> None
      then
        (let r0 = [];
             r1 = (case from of None \<Rightarrow> r0 | Some d \<Rightarrow> obj_set ''$gte'' (DateV d) r0);
             r2 = (case to of None \<Rightarrow> r1 | Some d \<Rightarrow> obj_set ''$lte'' (DateV d) r1);
             filters1 = obj_set name (ObjV r2) filters
         in if length (obj_keys r2) = 0 then obj_delete name filters1 else filters1)
      else filters)"

definition publishedAt_step :: "platform \<Rightarrow> params \<Rightarrow> obj \<Rightarrow> obj" where
  "publishedAt_step P opts filters =
     range_step ''publishedAt'' (parseDate P (opts ''dateFrom'')) (parseDate P (opts ''dateTo''))
       filters"

definition examDate_step :: "platform \<Rightarrow> params \<Rightarrow> obj \<Rightarrow> obj" where
  "examDate_step P opts filters =
     range_step ''examDate'' (parseDate P (opts ''examDateFrom''))
       (parseDate P (opts ''examDateTo'')) filters"

definition level_step :: "params \<Rightarrow> obj \<Rightarrow> obj" where
  "level_step opts filters =
     (if truthy (opts ''level'')
      then obj_set ''level'' (Val (sanitizeString (opts ''level''))) filters
      else filters)"

text \<open>
  The keyword fallback is the one statement that can raise: \<^verbatim>\<open>new RegExp\<close> throws on a
  malformed pattern.
\<close>

definition keyword_clauses :: "string \<Rightarrow> doc \<Rightarrow> doc" where
  "keyword_clauses kw re =
     ArrV [ObjV [(''title_en'', re)],
           ObjV [(''title_hi'', re)],
           ObjV [(''title_bn'', re)],
           ObjV [(''description'', re)],
           ObjV [(''tags'', in_list [Str kw])]]"

definition keywords_step :: "params \<Rightarrow> obj \<Rightarrow> error + obj" where
  "keywords_step opts filters =
     (case opts ''keywords'' of
        Str keywords \<Rightarrow>
          if keywords \<noteq> [] \<and> length (trim keywords) > 0
          then (case sanitizeString (Str keywords) of
                  Str kw \<Rightarrow>
                    (case new_RegExp (escape_regex kw) ''i'' of
                       Inl e \<Rightarrow> Inl e
                     | Inr re \<Rightarrow> Inr (obj_set ''$or'' (keyword_clauses kw re) filters))
                | _ \<Rightarrow> Inl TypeError)
          else Inr filters
      | _ \<Rightarrow> Inr filters)"

text \<open>
  \<^verbatim>\<open>buildMongoFilters(opts = {})\<close>. The default stands in for the argument that is left
  out. The destructuring \<^verbatim>\<open>const { language, ... } = opts\<close> follows with no test of
  \<^verbatim>\<open>opts\<close>.
\<close>

definition buildMongoFilters :: "platform \<Rightarrow> params argument \<Rightarrow> error + obj" where
  "buildMongoFilters P opts0 =
     (case properties_of no_params opts0 of
        Inl e \<Rightarrow> Inl e
      | Inr opts \<Rightarrow>
          (let filters = [];
               filters = language_step opts filters;
               filters = category_step opts filters;
               filters = tags_step opts filters;
               filters = locations_step opts filters;
               filters = isPaid_step opts filters;
               filters = downloads_step opts filters;
               filters = publishedAt_step P opts filters;
               filters = examDate_step P opts filters;
               filters = level_step opts filters
           in keywords_step opts filters))"

section \<open>The convenience wrapper\<close>

text \<open>
  A query is a \<^verbatim>\<open>URLSearchParams\<close>, the list of its name-value pairs, of which
  \<^verbatim>\<open>get\<close> reads the first with the name, or a plain object. A plain object of parameter
  values has no function \<^verbatim>\<open>get\<close>.
\<close>

datatype query = URLSearchParams "(string \<times> string) list" | PlainObject params

definition us_get :: "(string \<times> string) list \<Rightarrow> string \<Rightarrow> jsval" where
  "us_get xs name = (case map_of xs name of None \<Rightarrow> Null | Some v \<Rightarrow> Str v)"

definition us_has :: "(string \<times> string) list \<Rightarrow> string \<Rightarrow> bool" where
  "us_has xs name = (map_of xs name \<noteq> None)"

text \<open>\<^verbatim>\<open>a || b\<close>\<close>

definition js_or :: "jsval \<Rightarrow> jsval \<Rightarrow> jsval" where
  "js_or a b = (if truthy a then a else b)"

definition normalize_params :: "query \<Rightarrow> params" where
  "normalize_params query =
     (case query of
        URLSearchParams xs \<Rightarrow>
          no_params
           (''q'' := js_or (us_get xs ''q'') (Str []),
            ''language'' := js_or (us_get xs ''language'') Undefined,
            ''category'' := js_or (us_get xs ''category'') Undefined,
            ''tags'' := js_or (us_get xs ''tags'') Undefined,
            ''locations'' := js_or (us_get xs ''locations'') Undefined,
            ''isPaid'' :=
               (if us_has xs ''isPaid'' then parseBoolean (us_get xs ''isPaid'') Undefined
                else Undefined),
            ''minDownloads'' := js_or (us_get xs ''minDownloads'') Undefined,
            ''dateFrom'' := js_or (us_get xs ''dateFrom'') Undefined,
            ''dateTo'' := js_or (us_get xs ''dateTo'') Undefined,
            ''examDateFrom'' := js_or (us_get xs ''examDateFrom'') Undefined,
            ''examDateTo'' := js_or (us_get xs ''examDateTo'') Undefined,
            ''level'' := js_or (us_get xs ''level'') Undefined,
            ''keywords'' := js_or (us_get xs ''keywords'') Undefined,
            ''page'' := js_or (us_get xs ''page'') Undefined,
            ''limit'' := js_or (us_get xs ''limit'') Undefined,
            ''sort'' := js_or (us_get xs ''sort'') Undefined)
      | PlainObject ob \<Rightarrow>
          no_params
           (''q'' := js_or (ob ''q'') (Str []),
            ''language'' := ob ''language'',
            ''category'' := ob ''category'',
            ''tags'' := ob ''tags'',
            ''locations'' := ob ''locations'',
            ''isPaid'' :=
               (if ob ''isPaid'' \<noteq> Undefined then parseBoolean (ob ''isPaid'') Undefined
                else Undefined),
            ''minDownloads'' := ob ''minDownloads'',
            ''dateFrom'' := ob ''dateFrom'',
            ''dateTo'' := ob ''dateTo'',
            ''examDateFrom'' := ob ''examDateFrom'',
            ''examDateTo'' := ob ''examDateTo'',
            ''level'' := ob ''level'',
            ''keywords'' := ob ''keywords'',
            ''page'' := ob ''page'',
            ''limit'' := ob ''limit'',
            ''sort'' := ob ''sort''))"

text \<open>
  \<^verbatim>\<open>if (typeof params.tags === 'string' && params.tags.trim()) params.tags = parseList(params.tags)\<close>,
  and the same for \<^verbatim>\<open>locations\<close>.
\<close>

definition list_param :: "string \<Rightarrow> params \<Rightarrow> params" where
  "list_param name ps =
     (case ps name of
        Str s \<Rightarrow> if trim s \<noteq> [] then ps(name := Arr (parseList (Str s))) else ps
      | _ \<Rightarrow> ps)"

record meta =
  meta_q :: jsval
  meta_page :: number
  meta_limit :: number
  meta_sort :: jsval

record filters_and_options =
  fo_filters :: obj
  fo_options :: list_options
  fo_meta :: meta

text \<open>
  \<^verbatim>\<open>buildPdfFiltersAndOptions(query = {})\<close>. The first thing read is \<^verbatim>\<open>query.get\<close>.
\<close>

definition buildPdfFiltersAndOptions ::
  "platform \<Rightarrow> query argument \<Rightarrow> error + filters_and_options" where
  "buildPdfFiltersAndOptions P query0 =
     (case properties_of (PlainObject no_params) query0 of
        Inl e \<Rightarrow> Inl e
      | Inr query \<Rightarrow>
          (let params = normalize_params query;
               params = list_param ''tags'' params;
               params = list_param ''locations'' params
           in case buildMongoFilters P (Given params) of
                Inl e \<Rightarrow> Inl e
              | Inr filters \<Rightarrow>
                  (let options = buildListOptions
                         (Given (no_params(''page'' := params ''page'',
                                           ''limit'' := params ''limit'',
                                           ''sort'' := params ''sort'')));
                       meta = \<lparr>meta_q = params ''q'', meta_page = lo_page options,
                               meta_limit = lo_limit options,
                               meta_sort = js_or (params ''sort'') (Str ''score'')\<rparr>
                   in Inr \<lparr>fo_filters = filters, fo_options = options, fo_meta = meta\<rparr>)))"

section \<open>The search pipeline builder\<close>

text \<open>
  The argument of \<^verbatim>\<open>buildPdfSearchPipeline\<close> is destructured into seven properties.
  \<^verbatim>\<open>page\<close> and \<^verbatim>\<open>limit\<close> are whole numbers, \<open>None\<close> where the property is
  \<^verbatim>\<open>undefined\<close> and the default applies. The skip is computed with the integers,
  which is the arithmetic of numbers as long as (page - 1) * limit is at most \<open>2 ^ 53\<close>.
\<close>

record search_args =
  sa_q :: jsval
  sa_language :: jsval
  sa_category :: jsval
  sa_locations :: jsval
  sa_sort :: jsval
  sa_page :: "int option"
  sa_limit :: "int option"

definition str_list :: "string list \<Rightarrow> doc" where
  "str_list xs = Val (Arr (map Str xs))"

definition text_clause :: "jsval \<Rightarrow> doc" where
  "text_clause q =
     ObjV [(''text'',
            ObjV [(''query'', Val q),
                  (''path'', str_list [''title_en'', ''title_hi'', ''title_bn'', ''keywords.en'',
                                       ''keywords.hi'', ''keywords.bn'', ''tags'', ''category'']),
                  (''fuzzy'', ObjV [(''maxEdits'', NumV (Whole 2)), (''prefixLength'', NumV (Whole 2))])])]"

definition equals_clause :: "string \<Rightarrow> jsval \<Rightarrow> doc" where
  "equals_clause path v = ObjV [(''equals'', ObjV [(''path'', Val (Str path)), (''value'', Val v)])]"

definition in_clause :: "string \<Rightarrow> jsval \<Rightarrow> doc" where
  "in_clause path v = ObjV [(''in'', ObjV [(''path'', Val (Str path)), (''value'', Val v)])]"

text \<open>\<^verbatim>\<open>locations?.length\<close> as a condition: arrays and strings have a length.\<close>

definition has_length :: "jsval \<Rightarrow> bool" where
  "has_length v = (case v of Arr xs \<Rightarrow> xs \<noteq> [] | Str s \<Rightarrow> s \<noteq> [] | _ \<Rightarrow> False)"

definition should_clauses :: "search_args \<Rightarrow> doc list" where
  "should_clauses a = (if truthy (sa_q a) then [text_clause (sa_q a)] else [])"

definition must_clauses :: "search_args \<Rightarrow> doc list" where
  "must_clauses a =
     (let must = [];
          must = (if truthy (sa_language a) then must @ [equals_clause ''language'' (sa_language a)]
                  else must);
          must = (if truthy (sa_category a) then must @ [equals_clause ''category'' (sa_category a)]
                  else must);
          must = (if has_length (sa_locations a) then must @ [in_clause ''locations'' (sa_locations a)]
                  else must)
      in must)"

text \<open>\<^verbatim>\<open>xs.length ? xs : undefined\<close>\<close>

definition list_or_undefined :: "doc list \<Rightarrow> doc" where
  "list_or_undefined xs = (if xs \<noteq> [] then ArrV xs else Val Undefined)"

definition search_stage :: "search_args \<Rightarrow> doc" where
  "search_stage a =
     ObjV [(''$search'',
            ObjV [(''index'', Val (Str ''pdf_search_index'')),
                  (''compound'',
                   ObjV [(''should'', list_or_undefined (should_clauses a)),
                         (''must'', list_or_undefined (must_clauses a))]),
                  (''highlight'',
                   ObjV [(''path'', str_list [''title_en'', ''title_hi'', ''title_bn'',
                                              ''keywords.en'', ''tags''])])])]"

definition meta_value :: "string \<Rightarrow> doc" where
  "meta_value k = ObjV [(''$meta'', Val (Str k))]"

definition addFields_stage :: doc where
  "addFields_stage =
     ObjV [(''$addFields'',
            ObjV [(''score'', meta_value ''searchScore''),
                  (''highlights'', meta_value ''searchHighlights'')])]"

definition project_stage :: doc where
  "project_stage =
     ObjV [(''$project'',
            ObjV (map (\<lambda>k. (k, NumV (Whole 1)))
                   [''title_en'', ''title_hi'', ''title_bn'', ''category'', ''tags'', ''language'',
                    ''seoSlug'', ''downloads'', ''createdAt'', ''r2Key'', ''price'', ''isPaid'',
                    ''score'', ''highlights'']))]"

definition sort_stage :: "jsval \<Rightarrow> doc" where
  "sort_stage sort0 =
     (if sort0 = Str ''downloads''
      then ObjV [(''$sort'', ObjV [(''downloads'', desc), (''createdAt'', desc)])]
      else if sort0 = Str ''latest''
      then ObjV [(''$sort'', ObjV [(''createdAt'', desc)])]
      else ObjV [(''$sort'', ObjV [(''score'', desc), (''downloads'', desc), (''createdAt'', desc)])])"

definition facet_stage :: "int \<Rightarrow> int \<Rightarrow> doc" where
  "facet_stage skip limit =
     ObjV [(''$facet'',
            ObjV [(''results'', ArrV [ObjV [(''$skip'', NumV (Whole skip))],
                                      ObjV [(''$limit'', NumV (Whole limit))]]),
                  (''totalCount'', ArrV [ObjV [(''$count'', Val (Str ''count''))]])])]"

definition buildPdfSearchPipeline :: "search_args \<Rightarrow> doc list" where
  "buildPdfSearchPipeline a =
     (let sort0 = (if sa_sort a = Undefined then Str ''score'' else sa_sort a);
          page = (case sa_page a of None \<Rightarrow> 1 | Some n \<Rightarrow> n);
          limit = (case sa_limit a of None \<Rightarrow> 10 | Some n \<Rightarrow> n);
          pipeline = [search_stage a, addFields_stage, project_stage];
          pipeline = pipeline @ [sort_stage sort0];
          skip = (page - 1) * limit;
          pipeline = pipeline @ [facet_stage skip limit]
      in pipeline)"

section \<open>What the store does with a pipeline, and the response envelope\<close>

text \<open>
  Property reads on documents: \<^verbatim>\<open>d.k\<close> is \<^verbatim>\<open>undefined\<close> where \<open>d\<close> has no such property.
\<close>

definition obj_get :: "doc \<Rightarrow> string \<Rightarrow> doc" where
  "obj_get d k =
     (case d of
        ObjV ps \<Rightarrow> (case map_of ps k of None \<Rightarrow> Val Undefined | Some v \<Rightarrow> v)
      | _ \<Rightarrow> Val Undefined)"

definition compound_of :: "doc list \<Rightarrow> doc" where
  "compound_of pipeline =
     (case pipeline of
        [] \<Rightarrow> Val Undefined
      | stage # rest \<Rightarrow> obj_get (obj_get stage ''$search'') ''compound'')"

definition clause_list :: "doc \<Rightarrow> string \<Rightarrow> doc list" where
  "clause_list compound k = (case obj_get compound k of ArrV cs \<Rightarrow> cs | _ \<Rightarrow> [])"

text \<open>
  The compound operator of the search stage, after the reference of the search service:
  a record is returned when it matches every \<^verbatim>\<open>must\<close> clause. With
  \<^verbatim>\<open>minimumShouldMatch\<close> left out, as here, a record need not match a \<^verbatim>\<open>should\<close>
  clause to be returned, unless there is no \<^verbatim>\<open>must\<close> clause: then it has to match one
  \<^verbatim>\<open>should\<close> clause. \<open>matches\<close> says which clauses the record at hand matches.
\<close>

definition compound_accepts :: "(doc \<Rightarrow> bool) \<Rightarrow> doc \<Rightarrow> bool" where
  "compound_accepts matches compound =
     (let should = clause_list compound ''should''; must = clause_list compound ''must''
      in list_all matches must \<and> (if must = [] \<and> should \<noteq> [] then list_ex matches should else True))"









section \<open>Names used in the statements\<close>

text \<open>
  A runtime for the examples: the clock stands at 1700000000000 ms, \<^verbatim>\<open>Number\<close> reads the
  strings of decimal digits, and the date parser reads the one date listed; both answer
  \<^verbatim>\<open>NaN\<close> elsewhere.
\<close>

definition sample_platform :: platform where
  "sample_platform =
     \<lparr>clock = 1700000000000,
      to_number = (\<lambda>s. if list_all is_digit s then Finite (of_int (int_of_digits s)) else NaN),
      date_parse = (\<lambda>s. if s = ''2023-01-01'' then Finite 1672531200000 else NaN)\<rparr>"

text \<open>
  The names that \<^verbatim>\<open>buildMongoFilters\<close> destructures from its argument, the keys it can
  write into the filter, and the names that \<^verbatim>\<open>buildListOptions\<close> reads. A parameter
  value is blank when it is absent, \<^verbatim>\<open>null\<close> or the empty string.
\<close>

definition filter_params :: "string list" where
  "filter_params =
     [''language'', ''category'', ''tags'', ''locations'', ''isPaid'', ''minDownloads'',
      ''dateFrom'', ''dateTo'', ''examDateFrom'', ''examDateTo'', ''level'', ''keywords'']"

definition filter_fields :: "string list" where
  "filter_fields =
     [''language'', ''category'', ''tags'', ''locations'', ''isPaid'', ''downloads'',
      ''publishedAt'', ''examDate'', ''level'', ''$or'']"

definition list_params :: "string list" where
  "list_params = [''page'', ''limit'', ''sort'']"

definition blank :: "jsval \<Rightarrow> bool" where
  "blank v = (v = Undefined \<or> v = Null \<or> v = Str [])"

text \<open>
  A search for the examples: the term "algebra" within the language "en"; and a record
  in that language that does not match the term.
\<close>

definition sample_search :: search_args where
  "sample_search =
     \<lparr>sa_q = Str ''algebra'', sa_language = Str ''en'', sa_category = Undefined,
      sa_locations = Arr [], sa_sort = Undefined, sa_page = None, sa_limit = None\<rparr>"

definition english_without_term :: "doc \<Rightarrow> bool" where
  "english_without_term clause = (clause = equals_clause ''language'' (Str ''en''))"

text \<open>
  The length of the units of a relative date in milliseconds, in the words of the
  specification: a day, an hour, a month of 30 days and a year of 365 days.
\<close>

definition unit_ms :: "char \<Rightarrow> int" where
  "unit_ms u =
     (if u = CHR ''d'' then 86400000
      else if u = CHR ''h'' then 3600000
      else if u = CHR ''m'' then 30 * 86400000
      else if u = CHR ''y'' then 365 * 86400000
      else 0)"

text \<open>The default order, by score, and the default list options.\<close>

definition score_order :: doc where
  "score_order = ObjV [(''score'', desc), (''downloads'', desc), (''createdAt'', desc)]"

definition default_options :: list_options where
  "default_options =
     \<lparr>lo_skip = Whole 0, lo_limit = Whole 12, lo_sort = score_order, lo_page = Whole 1\<rparr>"

section \<open>Numbers\<close>

text \<open>
  An integer of at most \<open>2 ^ 53\<close> in magnitude is its own number; the number for a
  larger one is infinite or at least \<open>2 ^ 53\<close> in magnitude, with the sign of the integer.
\<close>

lemma bitlen_small:
  assumes "0 \<le> m" "m < 2 ^ 53"
  shows "bitlen m \<le> 53"
proof (cases "m = 0")
  case True
  then show ?thesis by simp
next
  case False
  then have p: "0 < m" using assms(1) by simp
  have "(2::int) ^ nat (bitlen m - 1) \<le> m"
    using bitlen_bounds [OF p] by simp
  then have "(2::int) ^ nat (bitlen m - 1) < 2 ^ 53"
    using assms(2) by (rule le_less_trans)
  then have "nat (bitlen m - 1) < 53"
    by (intro power_less_imp_less_exp [of "2::int"]) simp_all
  then show ?thesis by simp
qed

lemma nearest_small:
  assumes "0 \<le> m" "m \<le> SAFE"
  shows "nearest m = Whole m"
proof (cases "m = SAFE")
  case True
  have "nearest 9007199254740992 = Whole 9007199254740992"
    by code_simp
  then show ?thesis
    unfolding True SAFE_def by simp
next
  case False
  then have l: "m < 2 ^ 53" using assms(2) by (simp add: SAFE_def)
  have e: "nat (bitlen m - 53) = 0"
    using bitlen_small [OF assms(1) l] by simp
  have "m < 2 ^ 1024"
    using l by (rule less_trans) simp
  then show ?thesis
    by (simp add: nearest_def e Let_def)
qed

lemma nearest_big:
  assumes "SAFE \<le> m"
  shows "nearest m = PosInf \<or> (\<exists>k. nearest m = Whole k \<and> SAFE \<le> k)"
proof -
  have p: "0 < m" using assms by (simp add: SAFE_def)
  define e where "e = nat (bitlen m - 53)"
  define q where "q = m div 2 ^ e"
  define q' where "q' = (if 2 * (m mod 2 ^ e) > 2 ^ e \<or> (2 * (m mod 2 ^ e) = 2 ^ e \<and> q mod 2 = 1) then q + 1 else q)"
  have n: "nearest m = (if q' * 2 ^ e \<ge> 2 ^ 1024 then PosInf else Whole (q' * 2 ^ e))"
    by (simp add: nearest_def Let_def e_def q_def q'_def)
  have lo: "(2::int) ^ nat (bitlen m - 1) \<le> m" and hi: "m < 2 ^ nat (bitlen m)"
    using bitlen_bounds [OF p] by simp_all
  have "(2::int) ^ 53 \<le> m"
    using assms by (simp add: SAFE_def)
  then have "(2::int) ^ 53 < 2 ^ nat (bitlen m)"
    using hi by (rule le_less_trans)
  then have "53 < nat (bitlen m)"
    by (intro power_less_imp_less_exp [of "2::int"]) simp_all
  then have b: "54 \<le> bitlen m" by simp
  then have e1: "1 \<le> e" and s: "nat (bitlen m - 1) = 52 + e"
    by (simp_all add: e_def)
  have "(2::int) ^ 52 * 2 ^ e \<le> m"
    using lo unfolding s by (simp add: power_add)
  then have "((2::int) ^ 52 * 2 ^ e) div 2 ^ e \<le> m div 2 ^ e"
    by (rule zdiv_mono1) simp
  then have "(2::int) ^ 52 \<le> q"
    unfolding q_def by simp
  moreover have "q \<le> q'" by (simp add: q'_def)
  ultimately have "(2::int) ^ 52 \<le> q'" by simp
  then have B: "(2::int) ^ 52 * 2 ^ e \<le> q' * 2 ^ e"
    by (simp add: mult_right_mono)
  have A: "(2::int) ^ 52 * 2 ^ 1 \<le> 2 ^ 52 * 2 ^ e"
    using e1 by (intro mult_left_mono power_increasing) simp_all
  have "(2::int) ^ 52 * 2 ^ 1 \<le> q' * 2 ^ e"
    using A B by (rule order_trans)
  then have "SAFE \<le> q' * 2 ^ e"
    by (simp add: SAFE_def)
  then show ?thesis
    unfolding n by simp
qed


lemma number_of_small: "\<bar>m\<bar> \<le> SAFE \<Longrightarrow> number_of m = Whole m"
  using nearest_small [of m] nearest_small [of "- m"] by (auto simp: number_of_def)

lemma number_of_cases:
  "number_of m = Whole m \<and> \<bar>m\<bar> \<le> SAFE
   \<or> SAFE < m \<and> (number_of m = PosInf \<or> (\<exists>k. number_of m = Whole k \<and> SAFE \<le> k))
   \<or> m < - SAFE \<and> (number_of m = NegInf \<or> (\<exists>k. number_of m = Whole k \<and> k \<le> - SAFE))"
proof -
  consider "\<bar>m\<bar> \<le> SAFE" | "SAFE < m" | "m < - SAFE" by linarith
  then show ?thesis
  proof cases
    case 1
    then show ?thesis by (simp add: number_of_small)
  next
    case 2
    then have "0 \<le> m" by (simp add: SAFE_def)
    then show ?thesis
      using 2 nearest_big [of m] by (auto simp: number_of_def)
  next
    case 3
    then have "m < 0" by (simp add: SAFE_def)
    then show ?thesis
      using 3 nearest_big [of "- m"] by (auto simp: number_of_def)
  qed
qed

lemma number_of_not_NaN: "number_of m \<noteq> NotANumber"
  using number_of_cases [of m] by auto

lemma number_of_compare:
  "js_le (number_of m) (Whole 0) = (m \<le> 0)"
  "js_less (Whole 200) (number_of m) = (200 < m)"
  using number_of_cases [of m] by (auto simp: js_le_def SAFE_def)


text \<open>
  Products of whole numbers: a product below \<open>2 ^ 53\<close> is exact, an even product below
  \<open>2 ^ 54\<close> is exact, and a product of \<open>2 ^ j\<close> or more is a number of \<open>2 ^ j\<close> or more.
\<close>

lemma nearest_at_least:
  assumes "2 ^ j \<le> m" "53 \<le> j"
  shows "at_least (2 ^ j) (nearest m)"
proof -
  have p: "0 < m" using assms(1) by (rule less_le_trans [rotated]) simp
  define e where "e = nat (bitlen m - 53)"
  define q where "q = m div 2 ^ e"
  define q' where "q' = (if 2 * (m mod 2 ^ e) > 2 ^ e \<or> (2 * (m mod 2 ^ e) = 2 ^ e \<and> q mod 2 = 1) then q + 1 else q)"
  have n: "nearest m = (if q' * 2 ^ e \<ge> 2 ^ 1024 then PosInf else Whole (q' * 2 ^ e))"
    by (simp add: nearest_def Let_def e_def q_def q'_def)
  have lo: "(2::int) ^ nat (bitlen m - 1) \<le> m" and hi: "m < 2 ^ nat (bitlen m)"
    using bitlen_bounds [OF p] by simp_all
  have "(2::int) ^ j < 2 ^ nat (bitlen m)"
    using assms(1) hi by (rule le_less_trans)
  then have "j < nat (bitlen m)"
    by (intro power_less_imp_less_exp [of "2::int"]) simp_all
  then have b: "int j + 1 \<le> bitlen m" by simp
  then have s: "nat (bitlen m - 1) = 52 + e" and je: "j \<le> 52 + e"
    using assms(2) by (simp_all add: e_def)
  have "(2::int) ^ 52 * 2 ^ e \<le> m"
    using lo unfolding s by (simp add: power_add)
  then have "((2::int) ^ 52 * 2 ^ e) div 2 ^ e \<le> m div 2 ^ e"
    by (rule zdiv_mono1) simp
  then have "(2::int) ^ 52 \<le> q"
    unfolding q_def by simp
  moreover have "q \<le> q'" by (simp add: q'_def)
  ultimately have "(2::int) ^ 52 \<le> q'" by simp
  then have B: "(2::int) ^ 52 * 2 ^ e \<le> q' * 2 ^ e"
    by (simp add: mult_right_mono)
  have A: "(2::int) ^ j \<le> 2 ^ (52 + e)"
    using je by (intro power_increasing) simp_all
  have "(2::int) ^ j \<le> q' * 2 ^ e"
    using A B unfolding power_add by (rule order_trans)
  then show ?thesis
    unfolding n by (simp add: at_least_def)
qed

lemma nearest_even:
  assumes "2 ^ 53 \<le> m" "m < 2 ^ 54" "even m"
  shows "nearest m = Whole m"
proof -
  have p: "0 < m" using assms(1) by (rule less_le_trans [rotated]) simp
  have lo: "(2::int) ^ nat (bitlen m - 1) \<le> m" and hi: "m < 2 ^ nat (bitlen m)"
    using bitlen_bounds [OF p] by simp_all
  have "(2::int) ^ 53 < 2 ^ nat (bitlen m)"
    using assms(1) hi by (rule le_less_trans)
  then have 1: "53 < nat (bitlen m)"
    by (intro power_less_imp_less_exp [of "2::int"]) simp_all
  have "(2::int) ^ nat (bitlen m - 1) < 2 ^ 54"
    using lo assms(2) by (rule le_less_trans)
  then have 2: "nat (bitlen m - 1) < 54"
    by (intro power_less_imp_less_exp [of "2::int"]) simp_all
  have e: "nat (bitlen m - 53) = 1"
    using 1 2 by simp
  have r: "m mod 2 = 0" "m div 2 * 2 = m"
    using assms(3) by simp_all
  have "m < 2 ^ 1024"
    using assms(2) by (rule less_trans) simp
  then show ?thesis
    by (simp add: nearest_def e Let_def r)
qed


lemma number_of_at_least:
  assumes "2 ^ j \<le> m" "53 \<le> j"
  shows "at_least (2 ^ j) (number_of m)"
proof -
  have "0 < m" using assms(1) by (rule less_le_trans [rotated]) simp
  then show ?thesis
    using nearest_at_least [OF assms] by (simp add: number_of_def)
qed

lemma number_of_start:
  assumes "0 \<le> m"
  shows "number_of m = Whole m \<and> 0 \<le> m \<and> m < 2 ^ 53
    \<or> 2 ^ 53 \<le> m \<and> at_least (2 ^ 53) (number_of m)"
proof (cases "m < 2 ^ 53")
  case True
  then show ?thesis
    using assms by (simp add: number_of_small SAFE_def)
next
  case False
  then have "2 ^ 53 \<le> m" by simp
  then show ?thesis
    using number_of_at_least [of 53 m] by simp
qed

lemma times_at_least:
  assumes "at_least (2 ^ 53) x" "1 \<le> k" "2 ^ j \<le> 2 ^ 53 * k" "53 \<le> j"
  shows "at_least (2 ^ j) (js_times x (Whole k))"
proof (cases x)
  case (Whole v)
  then have v: "2 ^ 53 \<le> v" using assms(1) by (simp add: at_least_def)
  have "2 ^ 53 * k \<le> v * k"
    using v assms(2) by (intro mult_right_mono) simp_all
  then have "2 ^ j \<le> v * k"
    using assms(3) by simp
  then show ?thesis
    unfolding Whole using number_of_at_least [of j "v * k"] assms(4) by simp
next
  case PosInf
  then show ?thesis
    using assms(2) by (simp add: at_least_def)
next
  case NegInf
  then show ?thesis using assms(1) by (simp add: at_least_def)
next
  case NotANumber
  then show ?thesis using assms(1) by (simp add: at_least_def)
qed

lemma times_step:
  assumes "x = Whole y \<and> 0 \<le> y \<and> y < 2 ^ 53 \<or> 2 ^ 53 \<le> y \<and> at_least (2 ^ 53) x"
    and "1 \<le> k"
  shows "js_times x (Whole k) = Whole (y * k) \<and> 0 \<le> y * k \<and> y * k < 2 ^ 53
    \<or> 2 ^ 53 \<le> y * k \<and> at_least (2 ^ 53) (js_times x (Whole k))"
  using assms(1)
proof
  assume a: "x = Whole y \<and> 0 \<le> y \<and> y < 2 ^ 53"
  then have n: "0 \<le> y * k" using assms(2) by simp
  show ?thesis
  proof (cases "y * k < 2 ^ 53")
    case True
    then show ?thesis
      using a n by (simp add: number_of_small SAFE_def)
  next
    case False
    then have "2 ^ 53 \<le> y * k" by simp
    then show ?thesis
      using a number_of_at_least [of 53 "y * k"] by simp
  qed
next
  assume b: "2 ^ 53 \<le> y \<and> at_least (2 ^ 53) x"
  then have "0 \<le> y" by (simp add: order_trans [rotated])
  then have "y * 1 \<le> y * k"
    using assms(2) by (intro mult_left_mono) simp_all
  moreover have "2 ^ 53 \<le> y * 1" using b by simp
  ultimately have 1: "2 ^ 53 \<le> y * k" by (rule order_trans [rotated])
  have "(2::int) ^ 53 * 1 \<le> 2 ^ 53 * k"
    using assms(2) by (intro mult_left_mono) simp_all
  then have "at_least (2 ^ 53) (js_times x (Whole k))"
    using b assms(2) by (intro times_at_least) simp_all
  then show ?thesis
    using 1 by simp
qed

lemma times_last:
  assumes "x = Whole y \<and> 0 \<le> y \<and> y < 2 ^ 53 \<or> 2 ^ 53 \<le> y \<and> at_least (2 ^ 53) x"
  shows "js_times x (Whole 1000) = Whole (y * 1000) \<and> 0 \<le> y * 1000 \<and> y * 1000 < 2 ^ 54
    \<or> 2 ^ 54 \<le> y * 1000 \<and> at_least (2 ^ 54) (js_times x (Whole 1000))"
  using assms
proof
  assume a: "x = Whole y \<and> 0 \<le> y \<and> y < 2 ^ 53"
  then have n: "0 \<le> y * 1000" by simp
  consider "y * 1000 < 2 ^ 53" | "2 ^ 53 \<le> y * 1000" "y * 1000 < 2 ^ 54" | "2 ^ 54 \<le> y * 1000"
    by linarith
  then show ?thesis
  proof cases
    case 1
    then show ?thesis
      using a n by (simp add: number_of_small SAFE_def)
  next
    case 2
    have "nearest (y * 1000) = Whole (y * 1000)"
      using 2 by (intro nearest_even) simp_all
    then show ?thesis
      using a n 2 by (simp add: number_of_def)
  next
    case 3
    then show ?thesis
      using a number_of_at_least [of 54 "y * 1000"] by simp
  qed
next
  assume b: "2 ^ 53 \<le> y \<and> at_least (2 ^ 53) x"
  then have "2 ^ 53 * 1000 \<le> y * 1000" by simp
  then have 1: "2 ^ 54 \<le> y * 1000" by simp
  have "at_least (2 ^ 54) (js_times x (Whole 1000))"
    using b by (intro times_at_least) simp_all
  then show ?thesis
    using 1 by simp
qed

section \<open>Reading integers back\<close>

text \<open>
  \<^verbatim>\<open>parseInt\<close> reads the decimal numeral at the start of a string, whatever follows it
  that is not a digit, and reads nothing positive behind a minus sign.
\<close>

lemma digit_cases: "m < 10 \<Longrightarrow> m \<in> {0, 1, 2, 3, 4, 5, 6, 7, 8, 9::nat}"
  by auto

lemma digit_char_props:
  assumes "m < 10"
  shows "is_digit (''0123456789'' ! m)" and "digit_val (''0123456789'' ! m) = int m"
    and "\<not> is_space (''0123456789'' ! m)" and "''0123456789'' ! m \<noteq> CHR ''-''"
    and "''0123456789'' ! m \<noteq> CHR ''+''"
  using digit_cases [OF assms]
  by (auto simp: is_digit_def digit_val_def is_space_def)

lemma int_of_digits_snoc: "int_of_digits (ds @ [c]) = 10 * int_of_digits ds + digit_val c"
  by (simp add: int_of_digits_def)

lemma digits_of_props:
  "digits_of n \<noteq> [] \<and> list_all is_digit (digits_of n) \<and> int_of_digits (digits_of n) = int n"
proof (induction n rule: digits_of.induct)
  case (1 n)
  show ?case
  proof (cases "n < 10")
    case True
    then show ?thesis
      using digit_char_props [of n] by (simp add: int_of_digits_def)
  next
    case False
    then have IH: "digits_of (n div 10) \<noteq> [] \<and> list_all is_digit (digits_of (n div 10)) \<and>
        int_of_digits (digits_of (n div 10)) = int (n div 10)"
      using "1.IH" by simp
    have m: "n mod 10 < 10" by simp
    have eq: "digits_of n = digits_of (n div 10) @ [''0123456789'' ! (n mod 10)]"
      using False by (subst digits_of.simps) simp
    show ?thesis
      unfolding eq using IH digit_char_props [OF m]
      by (simp add: int_of_digits_snoc zmod_int zdiv_int del: digits_of.simps)
  qed
qed

lemma int_of_digits_nonneg: "list_all is_digit ds \<Longrightarrow> 0 \<le> int_of_digits ds"
proof (induction ds rule: rev_induct)
  case Nil
  show ?case by (simp add: int_of_digits_def)
next
  case (snoc c ds)
  then have "is_digit c" by simp
  then have "0 \<le> digit_val c"
    by (auto simp: is_digit_def digit_val_def)
  then show ?case
    using snoc by (simp add: int_of_digits_snoc)
qed

lemma takeWhile_digits:
  assumes "list_all is_digit ds" and "t = [] \<or> \<not> is_digit (hd t)"
  shows "takeWhile is_digit (ds @ t) = ds"
proof -
  have "takeWhile is_digit t = []"
    using assms(2) by (cases t) auto
  then show ?thesis
    using assms(1) by (simp add: list_all_iff takeWhile_append2)
qed

lemma read_int_digits_then:
  assumes "ds \<noteq> []" and "list_all is_digit ds" and "t = [] \<or> \<not> is_digit (hd t)"
  shows "read_int (ds @ t) = Some (int_of_digits ds)"
    and "read_int (CHR ''-'' # ds @ t) = Some (- int_of_digits ds)"
proof -
  obtain c cs where ds: "ds = c # cs" using assms(1) by (cases ds) auto
  have c: "is_digit c" using assms(2) ds by simp
  then have nsp: "\<not> is_space c" and nm: "c \<noteq> CHR ''-''" and np: "c \<noteq> CHR ''+''"
    by (auto simp: is_digit_def is_space_def)
  have tw: "takeWhile is_digit (ds @ t) = ds"
    using assms(2,3) by (rule takeWhile_digits)
  have d: "dropWhile is_space (ds @ t) = ds @ t"
    using nsp by (simp add: ds)
  have h: "ds @ t = c # cs @ t" by (simp add: ds)
  show "read_int (ds @ t) = Some (int_of_digits ds)"
    unfolding read_int_def d using tw nm np assms(1) unfolding h by (simp add: Let_def)
  have "\<not> is_space CHR ''-''" by (simp add: is_space_def)
  then show "read_int (CHR ''-'' # ds @ t) = Some (- int_of_digits ds)"
    using assms(1) unfolding read_int_def by (simp add: Let_def tw)
qed

lemma read_int_digits:
  assumes "ds \<noteq> []" and "list_all is_digit ds"
  shows "read_int ds = Some (int_of_digits ds)"
  using read_int_digits_then(1) [OF assms, of "[]"] by simp

lemma read_int_decimal:
  assumes "t = [] \<or> \<not> is_digit (hd t)"
  shows "read_int (decimal n @ t) = Some n"
proof (cases "n < 0")
  case True
  then show ?thesis
    using read_int_digits_then(2) [of "digits_of (nat (- n))" t] digits_of_props [of "nat (- n)"]
      assms
    by (simp add: decimal_def del: digits_of.simps)
next
  case False
  then show ?thesis
    using read_int_digits_then(1) [of "digits_of (nat n)" t] digits_of_props [of "nat n"] assms
    by (simp add: decimal_def del: digits_of.simps)
qed

lemma read_int_minus:
  "read_int (CHR ''-'' # s) = None \<or> (\<exists>m. read_int (CHR ''-'' # s) = Some m \<and> m \<le> 0)"
proof -
  have sp: "\<not> is_space CHR ''-''" by (simp add: is_space_def)
  have "list_all is_digit (takeWhile is_digit s)"
    by (simp add: list_all_iff) (meson set_takeWhileD)
  then have "0 \<le> int_of_digits (takeWhile is_digit s)"
    by (rule int_of_digits_nonneg)
  then show ?thesis
    using sp by (simp add: read_int_def Let_def)
qed

lemma decimal_not_empty: "decimal n \<noteq> []"
  using digits_of_props [of "nat n"] by (simp add: decimal_def del: digits_of.simps)


section \<open>List options: clamping\<close>

lemma parseInteger_read:
  "parseInteger v fb =
     (if v = Undefined \<or> v = Null \<or> v = Str [] then Fallback fb
      else case read_int (js_String v) of
             None \<Rightarrow> Fallback fb
           | Some m \<Rightarrow> Parsed (number_of m))"
  by (simp add: parseInteger_def js_parseInt_def Let_def number_of_not_NaN split: option.splits)

lemma parseInteger_fallback:
  "parseInteger v fb = (case parseInteger v () of Fallback u \<Rightarrow> Fallback fb | Parsed n \<Rightarrow> Parsed n)"
  by (simp add: parseInteger_read split: option.splits)

lemma parseInteger_Parsed: "parseInteger v fb = Parsed n \<Longrightarrow> \<exists>m. n = number_of m"
  by (auto simp: parseInteger_read split: if_splits option.splits)

lemma parseInteger_abc: "parseInteger (Str ''abc'') fb = Fallback fb"
  by (simp add: parseInteger_read read_int_def is_space_def is_digit_def)

lemma parseInteger_absent:
  "parseInteger Undefined fb = Fallback fb" "parseInteger Null fb = Fallback fb"
  "parseInteger (Str []) fb = Fallback fb"
  by (simp_all add: parseInteger_def)

lemma parseInteger_decimal:
  assumes "t = [] \<or> \<not> is_digit (hd t)"
  shows "parseInteger (Str (decimal n @ t)) fb = Parsed (number_of n)"
    and "parseInteger (Number (decimal n @ t)) fb = Parsed (number_of n)"
  using decimal_not_empty [of n] by (simp_all add: parseInteger_read read_int_decimal [OF assms])

lemma parseInteger_minus:
  "parseInteger (Str (CHR ''-'' # s)) fb = Fallback fb
   \<or> (\<exists>m. parseInteger (Str (CHR ''-'' # s)) fb = Parsed (number_of m) \<and> m \<le> 0)"
  "parseInteger (Number (CHR ''-'' # s)) fb = Fallback fb
   \<or> (\<exists>m. parseInteger (Number (CHR ''-'' # s)) fb = Parsed (number_of m) \<and> m \<le> 0)"
  using read_int_minus [of s] by (auto simp: parseInteger_read)

lemma parseInteger_small_cases:
  "parseInteger (Str ''0'') fb = Parsed (Whole 0)"
  "parseInteger (Number ''0'') fb = Parsed (Whole 0)"
  "parseInteger (Str ''-5'') fb = Parsed (Whole (- 5))"
  "parseInteger (Number ''-5'') fb = Parsed (Whole (- 5))"
  "parseInteger (Number ''12'') fb = Parsed (Whole 12)"
  "parseInteger (Number ''1'') fb = Parsed (Whole 1)"
  by (simp_all add: parseInteger_read read_int_def is_space_def is_digit_def int_of_digits_def
      digit_val_def number_of_small SAFE_def)

lemma default_numbers: "decimal 1 = ''1''" "decimal 12 = ''12''"
  by (simp_all add: decimal_def)

lemma buildListOptions_limit:
  "lo_limit (buildListOptions (Given ps)) =
     (case parseInteger (ps ''limit'') () of
        Fallback u \<Rightarrow> Whole 12
      | Parsed n \<Rightarrow>
          if js_le n (Whole 0) then Whole 12 else if js_less (Whole 200) n then Whole 200 else n)"
proof (cases "ps ''limit'' = Undefined")
  case True
  then show ?thesis
    by (simp add: buildListOptions_def Let_def default_numbers parseInteger_small_cases
        DEFAULT_LIMIT_def MAX_LIMIT_def js_le_def parseInteger_absent)
next
  case False
  then show ?thesis
    by (simp add: buildListOptions_def Let_def DEFAULT_LIMIT_def MAX_LIMIT_def js_le_def
        parseInteger_fallback [of _ "12::int"] split: or_fallback.splits)
qed

lemma buildListOptions_page:
  "lo_page (buildListOptions (Given ps)) =
     (case parseInteger (ps ''page'') () of
        Fallback u \<Rightarrow> Whole 1
      | Parsed n \<Rightarrow> if js_le n (Whole 0) then Whole 1 else n)"
proof (cases "ps ''page'' = Undefined")
  case True
  then show ?thesis
    by (simp add: buildListOptions_def Let_def default_numbers parseInteger_small_cases
        DEFAULT_PAGE_def js_le_def parseInteger_absent)
next
  case False
  then show ?thesis
    by (simp add: buildListOptions_def Let_def DEFAULT_PAGE_def js_le_def
        parseInteger_fallback [of _ "1::int"] split: or_fallback.splits)
qed

lemma buildListOptions_no_object:
  "buildListOptions Omitted = buildListOptions (Given no_params)"
  "buildListOptions Null_given = buildListOptions (Given no_params)"
  by (simp_all add: buildListOptions_def)

lemma buildListOptions_skip:
  "lo_skip (buildListOptions a) =
     js_times (js_minus (lo_page (buildListOptions a)) (Whole 1)) (lo_limit (buildListOptions a))"
  by (simp add: buildListOptions_def Let_def)

lemma clamp_limit:
  "\<exists>l. (if js_le (number_of m) (Whole 0) then Whole 12
         else if js_less (Whole 200) (number_of m) then Whole 200 else number_of m) = Whole l
       \<and> 1 \<le> l \<and> l \<le> 200"
proof -
  have "number_of m = Whole m" if "\<not> m \<le> 0" "\<not> 200 < m"
    using that by (intro number_of_small) (simp add: SAFE_def)
  then show ?thesis
    unfolding number_of_compare by auto
qed

lemma clamp_page:
  "(if js_le (number_of m) (Whole 0) then Whole 1 else number_of m) = PosInf
   \<or> (\<exists>p. (if js_le (number_of m) (Whole 0) then Whole 1 else number_of m) = Whole p \<and> 1 \<le> p)"
  unfolding number_of_compare using number_of_cases [of m] by (auto simp: SAFE_def)

lemma buildListOptions_limit_range:
  "\<exists>l. lo_limit (buildListOptions a) = Whole l \<and> 1 \<le> l \<and> l \<le> 200"
proof -
  have g: "\<exists>l. lo_limit (buildListOptions (Given ps)) = Whole l \<and> 1 \<le> l \<and> l \<le> 200" for ps
  proof (cases "parseInteger (ps ''limit'') ()")
    case (Fallback u)
    then show ?thesis by (simp add: buildListOptions_limit)
  next
    case (Parsed n)
    from parseInteger_Parsed [OF Parsed] obtain m where "n = number_of m" by auto
    then show ?thesis
      using clamp_limit [of m] by (simp add: buildListOptions_limit Parsed)
  qed
  show ?thesis
    by (cases a) (simp_all add: buildListOptions_no_object g)
qed

lemma buildListOptions_page_range:
  "lo_page (buildListOptions a) = PosInf
   \<or> (\<exists>p. lo_page (buildListOptions a) = Whole p \<and> 1 \<le> p)"
proof -
  have g: "lo_page (buildListOptions (Given ps)) = PosInf
      \<or> (\<exists>p. lo_page (buildListOptions (Given ps)) = Whole p \<and> 1 \<le> p)" for ps
  proof (cases "parseInteger (ps ''page'') ()")
    case (Fallback u)
    then show ?thesis by (simp add: buildListOptions_page)
  next
    case (Parsed n)
    from parseInteger_Parsed [OF Parsed] obtain m where "n = number_of m" by auto
    then show ?thesis
      using clamp_page [of m] by (simp add: buildListOptions_page Parsed)
  qed
  show ?thesis
    by (cases a) (simp_all add: buildListOptions_no_object g)
qed

lemma buildListOptions_skip_exact:
  assumes "lo_page (buildListOptions a) = Whole p" "lo_limit (buildListOptions a) = Whole l"
    "(p - 1) * l \<le> SAFE"
  shows "lo_skip (buildListOptions a) = Whole ((p - 1) * l)"
proof -
  have p: "1 \<le> p"
    using buildListOptions_page_range [of a] assms(1) by auto
  have l: "1 \<le> l"
    using buildListOptions_limit_range [of a] assms(2) by auto
  have "(p - 1) * 1 \<le> (p - 1) * l"
    using p l by (intro mult_left_mono) simp_all
  then have 1: "\<bar>p - 1\<bar> \<le> SAFE"
    using p assms(3) by simp
  have "0 \<le> (p - 1) * l"
    using p l by simp
  then have 2: "\<bar>(p - 1) * l\<bar> \<le> SAFE"
    using assms(3) by simp
  show ?thesis
    unfolding buildListOptions_skip assms(1,2)
    by (simp add: number_of_small [OF 1] number_of_small [OF 2])
qed

lemma buildListOptions_skip_infinite:
  assumes "lo_page (buildListOptions a) = PosInf"
  shows "lo_skip (buildListOptions a) = PosInf"
proof -
  obtain l where "lo_limit (buildListOptions a) = Whole l" "1 \<le> l"
    using buildListOptions_limit_range [of a] by blast
  then show ?thesis
    unfolding buildListOptions_skip assms by simp
qed


lemma limit_above:
  assumes "200 \<le> n" "t = [] \<or> \<not> is_digit (hd t)"
  shows "lo_limit (buildListOptions (Given (ps(''limit'' := Str (decimal n @ t))))) = Whole 200"
    and "lo_limit (buildListOptions (Given (ps(''limit'' := Number (decimal n @ t))))) = Whole 200"
  using assms(1) unfolding buildListOptions_limit
  by (simp_all add: parseInteger_decimal [OF assms(2)] number_of_compare number_of_small SAFE_def)

lemma page_not_positive:
  assumes "n \<le> 0" "t = [] \<or> \<not> is_digit (hd t)"
  shows "lo_page (buildListOptions (Given (ps(''page'' := Str (decimal n @ t))))) = Whole 1"
    and "lo_page (buildListOptions (Given (ps(''page'' := Number (decimal n @ t))))) = Whole 1"
  using assms(1) unfolding buildListOptions_page
  by (simp_all add: parseInteger_decimal [OF assms(2)] number_of_compare)

lemma page_minus:
  "lo_page (buildListOptions (Given (ps(''page'' := Str (CHR ''-'' # s))))) = Whole 1"
  "lo_page (buildListOptions (Given (ps(''page'' := Number (CHR ''-'' # s))))) = Whole 1"
  unfolding buildListOptions_page
  using parseInteger_minus(1) [of s "()"] parseInteger_minus(2) [of s "()"]
  by (auto simp: number_of_compare)

lemma page_not_numeric:
  assumes "read_int (js_String v) = None"
  shows "lo_page (buildListOptions (Given (ps(''page'' := v)))) = Whole 1"
  unfolding buildListOptions_page using assms by (simp add: parseInteger_read)

text \<open>
  C3, as the code has it. Whatever the argument, the limit of \<^verbatim>\<open>buildListOptions\<close> is a
  whole number in 1..200, the page is a whole number of at least 1 or infinite, and the
  skip is (page - 1) * limit in the arithmetic of numbers: the integer (page - 1) * limit
  where that is at most \<open>2 ^ 53\<close>, and infinite for an infinite page. The limit and the
  page are what \<^verbatim>\<open>parseInteger\<close> reads, clamped: no integer read, or one that is not
  positive, gives the default (12 and 1); a limit read above 200 gives 200. What is read
  is the integer at the start of the string of the value. So the limits 0, -5 and "abc"
  give 12. A limit whose string begins with the decimal numeral of an integer of 200 or
  more, as the strings of the numbers from 200 on and below 1e21 do, gives 200; from 1e21
  on the string of a number is in exponent form and is not of this kind. A page whose string
  begins with the numeral of an integer that is at most 0, or with a minus sign, as the
  string of every number below 0 does, gives 1, and so does a page in which no integer
  is read, absent, empty or "abc".
\<close>

theorem buildListOptions_clamps:
  "(\<exists>l. lo_limit (buildListOptions a) = Whole l \<and> 1 \<le> l \<and> l \<le> 200)
   \<and> (lo_page (buildListOptions a) = PosInf
       \<or> (\<exists>p. lo_page (buildListOptions a) = Whole p \<and> 1 \<le> p))
   \<and> lo_skip (buildListOptions a) =
       js_times (js_minus (lo_page (buildListOptions a)) (Whole 1)) (lo_limit (buildListOptions a))
   \<and> (lo_page (buildListOptions a) = Whole p \<and> lo_limit (buildListOptions a) = Whole l
        \<and> (p - 1) * l \<le> SAFE
      \<longrightarrow> lo_skip (buildListOptions a) = Whole ((p - 1) * l))
   \<and> (lo_page (buildListOptions a) = PosInf \<longrightarrow> lo_skip (buildListOptions a) = PosInf)
   \<and> lo_limit (buildListOptions (Given ps)) =
       (case parseInteger (ps ''limit'') () of
          Fallback u \<Rightarrow> Whole 12
        | Parsed n \<Rightarrow>
            if js_le n (Whole 0) then Whole 12
            else if js_less (Whole 200) n then Whole 200 else n)
   \<and> lo_page (buildListOptions (Given ps)) =
       (case parseInteger (ps ''page'') () of
          Fallback u \<Rightarrow> Whole 1
        | Parsed n \<Rightarrow> if js_le n (Whole 0) then Whole 1 else n)
   \<and> lo_limit (buildListOptions (Given (ps(''limit'' := Number ''0'')))) = Whole 12
   \<and> lo_limit (buildListOptions (Given (ps(''limit'' := Str ''0'')))) = Whole 12
   \<and> lo_limit (buildListOptions (Given (ps(''limit'' := Number ''-5'')))) = Whole 12
   \<and> lo_limit (buildListOptions (Given (ps(''limit'' := Str ''-5'')))) = Whole 12
   \<and> lo_limit (buildListOptions (Given (ps(''limit'' := Str ''abc'')))) = Whole 12
   \<and> (200 \<le> n \<and> (t = [] \<or> \<not> is_digit (hd t))
      \<longrightarrow> lo_limit (buildListOptions (Given (ps(''limit'' := Number (decimal n @ t))))) = Whole 200
        \<and> lo_limit (buildListOptions (Given (ps(''limit'' := Str (decimal n @ t))))) = Whole 200)
   \<and> (m \<le> 0 \<and> (t = [] \<or> \<not> is_digit (hd t))
      \<longrightarrow> lo_page (buildListOptions (Given (ps(''page'' := Number (decimal m @ t))))) = Whole 1
        \<and> lo_page (buildListOptions (Given (ps(''page'' := Str (decimal m @ t))))) = Whole 1)
   \<and> lo_page (buildListOptions (Given (ps(''page'' := Number (CHR ''-'' # s))))) = Whole 1
   \<and> lo_page (buildListOptions (Given (ps(''page'' := Str (CHR ''-'' # s))))) = Whole 1
   \<and> (read_int (js_String v) = None
      \<longrightarrow> lo_page (buildListOptions (Given (ps(''page'' := v)))) = Whole 1)
   \<and> lo_page (buildListOptions (Given (ps(''page'' := Str ''abc'')))) = Whole 1
   \<and> lo_page (buildListOptions (Given (ps(''page'' := Undefined)))) = Whole 1
   \<and> lo_page (buildListOptions (Given (ps(''page'' := Null)))) = Whole 1
   \<and> lo_page (buildListOptions (Given (ps(''page'' := Str [])))) = Whole 1"
proof -
  have spec: "lo_limit (buildListOptions (Given (ps(''limit'' := Number ''0'')))) = Whole 12"
    "lo_limit (buildListOptions (Given (ps(''limit'' := Str ''0'')))) = Whole 12"
    "lo_limit (buildListOptions (Given (ps(''limit'' := Number ''-5'')))) = Whole 12"
    "lo_limit (buildListOptions (Given (ps(''limit'' := Str ''-5'')))) = Whole 12"
    "lo_limit (buildListOptions (Given (ps(''limit'' := Str ''abc'')))) = Whole 12"
    unfolding buildListOptions_limit
    by (simp_all add: parseInteger_small_cases parseInteger_abc js_le_def)
  have pages: "lo_page (buildListOptions (Given (ps(''page'' := Str ''abc'')))) = Whole 1"
    "lo_page (buildListOptions (Given (ps(''page'' := Undefined)))) = Whole 1"
    "lo_page (buildListOptions (Given (ps(''page'' := Null)))) = Whole 1"
    "lo_page (buildListOptions (Given (ps(''page'' := Str [])))) = Whole 1"
    unfolding buildListOptions_page
    by (simp_all add: parseInteger_abc parseInteger_absent)
  have ex: "lo_page (buildListOptions a) = Whole p \<and> lo_limit (buildListOptions a) = Whole l
        \<and> (p - 1) * l \<le> SAFE
      \<longrightarrow> lo_skip (buildListOptions a) = Whole ((p - 1) * l)"
    using buildListOptions_skip_exact [of a p l] by blast
  have inf: "lo_page (buildListOptions a) = PosInf \<longrightarrow> lo_skip (buildListOptions a) = PosInf"
    using buildListOptions_skip_infinite [of a] by blast
  have ab: "200 \<le> n \<and> (t = [] \<or> \<not> is_digit (hd t))
      \<longrightarrow> lo_limit (buildListOptions (Given (ps(''limit'' := Number (decimal n @ t))))) = Whole 200
        \<and> lo_limit (buildListOptions (Given (ps(''limit'' := Str (decimal n @ t))))) = Whole 200"
    using limit_above [of n t ps] by blast
  have np: "m \<le> 0 \<and> (t = [] \<or> \<not> is_digit (hd t))
      \<longrightarrow> lo_page (buildListOptions (Given (ps(''page'' := Number (decimal m @ t))))) = Whole 1
        \<and> lo_page (buildListOptions (Given (ps(''page'' := Str (decimal m @ t))))) = Whole 1"
    using page_not_positive [of m t ps] by blast
  have nn: "read_int (js_String v) = None
      \<longrightarrow> lo_page (buildListOptions (Given (ps(''page'' := v)))) = Whole 1"
    using page_not_numeric [of v ps] by blast
  show ?thesis
    by (intro conjI buildListOptions_limit_range buildListOptions_page_range
        buildListOptions_skip ex inf buildListOptions_limit buildListOptions_page spec ab np
        page_minus(2) page_minus(1) nn pages)
qed

theorem buildListOptions_clamps_witness:
  "lo_skip (buildListOptions (Given (no_params(''page'' := Str ''3'', ''limit'' := Str ''20'')))) =
     Whole 40
   \<and> lo_limit (buildListOptions (Given (no_params(''limit'' := Number ''500.5'')))) = Whole 200
   \<and> lo_limit (buildListOptions (Given (no_params(''limit'' := Str ''500.5'')))) = Whole 200
   \<and> lo_page (buildListOptions (Given (no_params(''page'' := Number ''-3.7'')))) = Whole 1
   \<and> lo_page (buildListOptions (Given (no_params(''page'' := Str ''-3.7'')))) = Whole 1
   \<and> lo_page (buildListOptions (Given (no_params(''page'' := Bool True)))) = Whole 1"
proof -
  let ?a = "Given (no_params(''page'' := Str ''3'', ''limit'' := Str ''20''))"
  have d: "decimal 500 = ''500''" "decimal (- 3) = ''-3''" "\<not> is_digit (hd ''.5'')"
    "\<not> is_digit (hd ''.7'')" "read_int (js_String (Bool True)) = None"
    by (simp_all add: decimal_def is_digit_def read_int_def is_space_def)
  have r: "lo_page (buildListOptions ?a) = Whole 3 \<and> lo_limit (buildListOptions ?a) = Whole 20
      \<and> (3 - 1) * 20 \<le> SAFE"
    by (simp add: buildListOptions_page buildListOptions_limit parseInteger_read read_int_def
        is_space_def is_digit_def int_of_digits_def digit_val_def number_of_small SAFE_def
        js_le_def)
  have "lo_skip (buildListOptions ?a) = Whole ((3 - 1) * 20)"
    using buildListOptions_clamps [of ?a 3 20] r by blast
  then have 1: "lo_skip (buildListOptions ?a) = Whole 40"
    by simp
  have 2: "lo_limit (buildListOptions (Given (no_params(''limit'' := Number ''500.5'')))) = Whole 200
      \<and> lo_limit (buildListOptions (Given (no_params(''limit'' := Str ''500.5'')))) = Whole 200"
    using buildListOptions_clamps [of ?a 3 20 no_params 500 "''.5''"] d by simp
  have 3: "lo_page (buildListOptions (Given (no_params(''page'' := Number ''-3.7'')))) = Whole 1
      \<and> lo_page (buildListOptions (Given (no_params(''page'' := Str ''-3.7'')))) = Whole 1"
    using buildListOptions_clamps [of ?a 3 20 no_params 500 "''.7''" "- 3"] d by simp
  have 4: "lo_page (buildListOptions (Given (no_params(''page'' := Bool True)))) = Whole 1"
    using buildListOptions_clamps [of ?a 3 20 no_params 500 "''.7''" "- 3" "[]" "Bool True"] d
    by simp
  show ?thesis
    using 1 2 3 4 by (simp only: simp_thms)
qed

text \<open>
  A limit above 200 that does not resolve to 200: the string of the number 1e21 is
  "1e+21", in which \<^verbatim>\<open>parseInt\<close> reads 1, and the limit is 1; the same goes for the string
  "1e21". And a skip that is not the integer (page - 1) * limit: the page
  "9007199254740993" is read as the number 9007199254740992, and for the page
  9007199254740994 and the limit 3 the difference page - 1 is rounded to
  9007199254740992 and the skip is 27021597764222976. A page of 400 digits is infinite,
  and so is its skip.
\<close>

theorem limit_above_200_counterexample:
  "lo_limit (buildListOptions (Given (no_params(''limit'' := Number ''1e+21'')))) = Whole 1
   \<and> lo_limit (buildListOptions (Given (no_params(''limit'' := Str ''1e21'')))) = Whole 1
   \<and> lo_page (buildListOptions (Given (no_params(''page'' := Str ''9007199254740993'')))) =
       Whole 9007199254740992
   \<and> lo_page (buildListOptions
         (Given (no_params(''page'' := Str ''9007199254740994'', ''limit'' := Str ''3'')))) =
       Whole 9007199254740994
   \<and> lo_limit (buildListOptions
         (Given (no_params(''page'' := Str ''9007199254740994'', ''limit'' := Str ''3'')))) =
       Whole 3
   \<and> lo_skip (buildListOptions
         (Given (no_params(''page'' := Str ''9007199254740994'', ''limit'' := Str ''3'')))) =
       Whole 27021597764222976
   \<and> (9007199254740994 - 1) * 3 = (27021597764222979 :: int)
   \<and> lo_page (buildListOptions (Given (no_params(''page'' := Str (replicate 400 CHR ''9''))))) =
       PosInf
   \<and> lo_skip (buildListOptions (Given (no_params(''page'' := Str (replicate 400 CHR ''9''))))) =
       PosInf"
  by code_simp

section \<open>Empty input\<close>

lemma buildMongoFilters_Given:
  "buildMongoFilters P (Given opts) =
     keywords_step opts (level_step opts (examDate_step P opts (publishedAt_step P opts
       (downloads_step opts (isPaid_step opts (locations_step opts (tags_step opts
         (category_step opts (language_step opts [])))))))))"
  by (simp add: buildMongoFilters_def properties_of_def Let_def)

lemma buildMongoFilters_Omitted: "buildMongoFilters P Omitted = buildMongoFilters P (Given no_params)"
  by (simp add: buildMongoFilters_def properties_of_def)

lemma buildMongoFilters_null: "buildMongoFilters P Null_given = Inl TypeError"
  by (simp add: buildMongoFilters_def properties_of_def)

lemma wrapper_Omitted:
  "buildPdfFiltersAndOptions P Omitted = buildPdfFiltersAndOptions P (Given (PlainObject no_params))"
  by (simp add: buildPdfFiltersAndOptions_def properties_of_def)

lemma wrapper_null: "buildPdfFiltersAndOptions P Null_given = Inl TypeError"
  by (simp add: buildPdfFiltersAndOptions_def properties_of_def)

lemma parseDate_falsy: "\<not> truthy v \<Longrightarrow> parseDate P v = None"
  by (simp add: parseDate_def)


lemma blank_not_truthy: "blank v \<Longrightarrow> \<not> truthy v"
  by (auto simp: blank_def)

lemma buildMongoFilters_blank:
  assumes "blank (ps ''language'')" "blank (ps ''category'')" "blank (ps ''tags'')"
    "blank (ps ''locations'')" "ps ''isPaid'' = Undefined \<or> ps ''isPaid'' = Null"
    "blank (ps ''minDownloads'')" "blank (ps ''dateFrom'')" "blank (ps ''dateTo'')"
    "blank (ps ''examDateFrom'')" "blank (ps ''examDateTo'')" "blank (ps ''level'')"
    "blank (ps ''keywords'')"
  shows "buildMongoFilters P (Given ps) = Inr []"
proof -
  have 1: "language_step ps [] = []" using assms(1) by (auto simp: language_step_def blank_def)
  have 2: "category_step ps [] = []" using assms(2) by (auto simp: category_step_def blank_def)
  have 3: "tags_step ps [] = []"
    using assms(3) by (auto simp: tags_step_def membership_step_def blank_def trim_def)
  have 4: "locations_step ps [] = []"
    using assms(4) by (auto simp: locations_step_def membership_step_def blank_def trim_def)
  have 5: "isPaid_step ps [] = []" using assms(5) by (auto simp: isPaid_step_def)
  have 6: "downloads_step ps [] = []"
    using assms(6) by (auto simp: downloads_step_def blank_def parseInteger_def)
  have 7: "publishedAt_step P ps [] = []"
    using assms(7,8) by (simp add: publishedAt_step_def range_step_def parseDate_falsy blank_not_truthy)
  have 8: "examDate_step P ps [] = []"
    using assms(9,10) by (simp add: examDate_step_def range_step_def parseDate_falsy blank_not_truthy)
  have 9: "level_step ps [] = []" using assms(11) by (auto simp: level_step_def blank_def)
  have 10: "keywords_step ps [] = Inr []"
    using assms(12) by (auto simp: keywords_step_def blank_def)
  show ?thesis
    by (simp add: buildMongoFilters_Given 1 2 3 4 5 6 7 8 9 10)
qed

lemma buildListOptions_blank:
  assumes "blank (ps ''page'')" "blank (ps ''limit'')" "blank (ps ''sort'')"
  shows "buildListOptions (Given ps) = default_options"
proof -
  have s: "SORT_MAP_get ''score'' = ObjV [(''score'', desc), (''downloads'', desc), (''createdAt'', desc)]"
    by (simp add: SORT_MAP_get_def SORT_MAP_def)
  have e: "SORT_MAP_get [] = Val Undefined"
    by (simp add: SORT_MAP_get_def SORT_MAP_def object_prototype_keys_def)
  have "ps ''sort'' = Undefined \<or> ps ''sort'' = Null \<or> ps ''sort'' = Str []"
    using assms(3) by (simp add: blank_def)
  then have srt: "lo_sort (buildListOptions (Given ps)) = ObjV [(''score'', desc), (''downloads'', desc), (''createdAt'', desc)]"
    by (auto simp: buildListOptions_def Let_def s e)
  have pg: "lo_page (buildListOptions (Given ps)) = Whole 1"
    unfolding buildListOptions_page using assms(1) by (auto simp: blank_def parseInteger_absent)
  have lm: "lo_limit (buildListOptions (Given ps)) = Whole 12"
    unfolding buildListOptions_limit using assms(2) by (auto simp: blank_def parseInteger_absent)
  have sk: "lo_skip (buildListOptions (Given ps)) = Whole 0"
    unfolding buildListOptions_skip pg lm by (simp add: number_of_small SAFE_def)
  show ?thesis
    using srt pg lm sk by (cases "buildListOptions (Given ps)") (simp add: default_options_def score_order_def)
qed



lemma SORT_MAP_score: "SORT_MAP_get ''score'' = score_order"
  by (simp add: SORT_MAP_get_def SORT_MAP_def score_order_def)

lemma map_of_blank:
  "list_all (\<lambda>p. snd p = []) xs \<Longrightarrow> map_of xs k = Some v \<Longrightarrow> v = []"
  by (auto dest!: map_of_SomeD simp: list_all_iff)

lemma us_get_blank:
  "list_all (\<lambda>p. snd p = []) xs \<Longrightarrow> js_or (us_get xs k) Undefined = Undefined"
  using map_of_blank [of xs k] by (cases "map_of xs k") (auto simp: us_get_def js_or_def)

lemma us_get_blank_q:
  "list_all (\<lambda>p. snd p = []) xs \<Longrightarrow> js_or (us_get xs k) (Str []) = Str []"
  using map_of_blank [of xs k] by (cases "map_of xs k") (auto simp: us_get_def js_or_def)

lemma us_isPaid_blank:
  "list_all (\<lambda>p. snd p = []) xs \<Longrightarrow>
   (if us_has xs k then parseBoolean (us_get xs k) Undefined else Undefined) = Undefined"
  using map_of_blank [of xs k]
  by (cases "map_of xs k") (auto simp: us_get_def us_has_def parseBoolean_def)

lemma normalize_url_blank:
  assumes "list_all (\<lambda>p. snd p = []) xs" and "k \<in> set (filter_params @ list_params)"
  shows "normalize_params (URLSearchParams xs) k = Undefined"
  using assms(2) us_get_blank [OF assms(1)] us_isPaid_blank [OF assms(1)]
  by (auto simp: filter_params_def list_params_def normalize_params_def no_params_def)


lemma normalize_url_q:
  assumes "list_all (\<lambda>p. snd p = []) xs"
  shows "normalize_params (URLSearchParams xs) ''q'' = Str []"
  using us_get_blank_q [OF assms] by (simp add: normalize_params_def)

lemma normalize_plain_key:
  "k \<in> set (filter_params @ list_params) \<Longrightarrow> k \<noteq> ''isPaid'' \<Longrightarrow>
   normalize_params (PlainObject ob) k = ob k"
  by (auto simp: filter_params_def list_params_def normalize_params_def no_params_def)

lemma normalize_plain_isPaid:
  assumes "blank (ob ''isPaid'')"
  shows "normalize_params (PlainObject ob) ''isPaid'' = Undefined"
  using assms by (auto simp: normalize_params_def blank_def parseBoolean_def)

lemma normalize_plain_blank:
  assumes "list_all (\<lambda>k. blank (ob k)) (filter_params @ list_params)"
    and "k \<in> set (filter_params @ list_params)"
  shows "blank (normalize_params (PlainObject ob) k)"
proof (cases "k = ''isPaid''")
  case True
  have "blank (ob ''isPaid'')"
    using assms(1) by (simp add: filter_params_def)
  then show ?thesis
    unfolding True by (simp add: normalize_plain_isPaid) (simp add: blank_def)
next
  case False
  have "blank (ob k)"
    using assms by (simp only: list_all_iff)
  then show ?thesis
    by (simp add: normalize_plain_key [OF assms(2) False])
qed

lemma list_param_blank: "blank (ps name) \<Longrightarrow> list_param name ps = ps"
  by (auto simp: list_param_def blank_def trim_def)

lemma wrapper_of_blank:
  assumes b: "\<And>k. k \<in> set (filter_params @ list_params) \<Longrightarrow> blank (normalize_params query k)"
    and p: "normalize_params query ''isPaid'' = Undefined"
  shows "buildPdfFiltersAndOptions P (Given query) =
     Inr \<lparr>fo_filters = [], fo_options = default_options,
          fo_meta = \<lparr>meta_q = normalize_params query ''q'', meta_page = Whole 1, meta_limit = Whole 12,
                     meta_sort = Str ''score''\<rparr>\<rparr>"
proof -
  define ps where "ps = normalize_params query"
  have bl: "blank (ps k)" if "k \<in> set (filter_params @ list_params)" for k
    using b [OF that] by (simp add: ps_def)
  have t: "list_param ''tags'' ps = ps"
    by (rule list_param_blank, rule bl) (simp add: filter_params_def)
  have l: "list_param ''locations'' ps = ps"
    by (rule list_param_blank, rule bl) (simp add: filter_params_def)
  have f: "buildMongoFilters P (Given ps) = Inr []"
    by (rule buildMongoFilters_blank; (rule bl)?) (simp_all add: filter_params_def p [folded ps_def])
  have o: "buildListOptions (Given (no_params(''page'' := ps ''page'', ''limit'' := ps ''limit'',
      ''sort'' := ps ''sort''))) = default_options"
    by (rule buildListOptions_blank) (simp_all add: bl list_params_def)
  have "blank (ps ''sort'')" by (rule bl) (simp add: list_params_def)
  then have s: "js_or (ps ''sort'') (Str ''score'') = Str ''score''"
    by (auto simp: blank_def js_or_def)
  show ?thesis
    unfolding buildPdfFiltersAndOptions_def properties_of_def
    by (simp add: Let_def ps_def [symmetric] t l f o s default_options_def)
qed


lemma no_params_blank: "blank (no_params k)"
  by (simp add: no_params_def blank_def)

text \<open>
  C4. A parameter set that is omitted or empty gives the empty filter, which matches
  everything, and the default list options: page 1, limit 12, skip 0 and the score
  order. The same holds when the parameters are there with blank values: for
  \<^verbatim>\<open>buildMongoFilters\<close> as long as \<^verbatim>\<open>isPaid\<close> is not the empty string (a value that is
  not \<^verbatim>\<open>undefined\<close> or \<^verbatim>\<open>null\<close> sets the paid flag), and for the wrapper with every
  parameter empty, \<^verbatim>\<open>isPaid\<close> too.
\<close>

theorem empty_input_gives_defaults:
  "buildMongoFilters P Omitted = Inr []
   \<and> buildMongoFilters P (Given no_params) = Inr []
   \<and> buildListOptions Omitted = default_options
   \<and> buildListOptions (Given no_params) = default_options
   \<and> lo_page default_options = Whole 1 \<and> lo_limit default_options = Whole 12
   \<and> lo_skip default_options = Whole 0 \<and> lo_sort default_options = SORT_MAP_get ''score''
   \<and> (list_all (\<lambda>k. blank (ps k)) filter_params \<and> ps ''isPaid'' \<noteq> Str []
        \<longrightarrow> buildMongoFilters P (Given ps) = Inr [])
   \<and> (list_all (\<lambda>k. blank (ps k)) list_params
        \<longrightarrow> buildListOptions (Given ps) = default_options)
   \<and> (list_all (\<lambda>p. snd p = []) xs
        \<longrightarrow> buildPdfFiltersAndOptions P (Given (URLSearchParams xs)) =
            Inr \<lparr>fo_filters = [], fo_options = default_options,
                 fo_meta = \<lparr>meta_q = Str [], meta_page = Whole 1, meta_limit = Whole 12,
                            meta_sort = Str ''score''\<rparr>\<rparr>)
   \<and> (list_all (\<lambda>k. blank (ob k)) (filter_params @ list_params)
        \<longrightarrow> buildPdfFiltersAndOptions P (Given (PlainObject ob)) =
            Inr \<lparr>fo_filters = [], fo_options = default_options,
                 fo_meta = \<lparr>meta_q = js_or (ob ''q'') (Str []), meta_page = Whole 1, meta_limit = Whole 12,
                            meta_sort = Str ''score''\<rparr>\<rparr>)"
proof -
  have f0: "buildMongoFilters P (Given no_params) = Inr []"
    by (rule buildMongoFilters_blank) (simp_all add: no_params_blank, simp add: no_params_def)
  have f1: "buildMongoFilters P Omitted = Inr []"
    using f0 by (simp add: buildMongoFilters_Omitted)
  have o0: "buildListOptions (Given no_params) = default_options"
    by (rule buildListOptions_blank) (simp_all add: no_params_blank)
  have o1: "buildListOptions Omitted = default_options"
    using o0 by (simp add: buildListOptions_no_object)
  have d: "lo_page default_options = Whole 1 \<and> lo_limit default_options = Whole 12
      \<and> lo_skip default_options = Whole 0 \<and> lo_sort default_options = SORT_MAP_get ''score''"
    by (simp add: default_options_def SORT_MAP_score)
  have f2: "buildMongoFilters P (Given ps) = Inr []"
    if "list_all (\<lambda>k. blank (ps k)) filter_params \<and> ps ''isPaid'' \<noteq> Str []"
  proof -
    have b: "blank (ps k)" if "k \<in> set filter_params" for k
      using \<open>list_all _ _ \<and> _\<close> that by (simp only: list_all_iff)
    have "blank (ps ''isPaid'')" by (rule b) (simp add: filter_params_def)
    then have "ps ''isPaid'' = Undefined \<or> ps ''isPaid'' = Null"
      using that by (simp add: blank_def)
    then show ?thesis
      by (intro buildMongoFilters_blank b) (simp_all add: filter_params_def)
  qed
  have o2: "buildListOptions (Given ps) = default_options"
    if "list_all (\<lambda>k. blank (ps k)) list_params"
    using that by (intro buildListOptions_blank) (simp_all add: list_params_def)
  have w1: "buildPdfFiltersAndOptions P (Given (URLSearchParams xs)) =
      Inr \<lparr>fo_filters = [], fo_options = default_options,
           fo_meta = \<lparr>meta_q = Str [], meta_page = Whole 1, meta_limit = Whole 12,
                      meta_sort = Str ''score''\<rparr>\<rparr>"
    if h: "list_all (\<lambda>p. snd p = []) xs"
  proof -
    have "blank (normalize_params (URLSearchParams xs) k)"
      if "k \<in> set (filter_params @ list_params)" for k
      using normalize_url_blank [OF h that] by (simp add: blank_def)
    moreover have "normalize_params (URLSearchParams xs) ''isPaid'' = Undefined"
      by (rule normalize_url_blank [OF h]) (simp add: filter_params_def)
    ultimately show ?thesis
      using wrapper_of_blank [of "URLSearchParams xs" P] by (simp add: normalize_url_q [OF h])
  qed
  have w2: "buildPdfFiltersAndOptions P (Given (PlainObject ob)) =
      Inr \<lparr>fo_filters = [], fo_options = default_options,
           fo_meta = \<lparr>meta_q = js_or (ob ''q'') (Str []), meta_page = Whole 1, meta_limit = Whole 12,
                      meta_sort = Str ''score''\<rparr>\<rparr>"
    if h: "list_all (\<lambda>k. blank (ob k)) (filter_params @ list_params)"
  proof -
    have "blank (ob ''isPaid'')"
      using h by (simp add: filter_params_def)
    then have "normalize_params (PlainObject ob) ''isPaid'' = Undefined"
      by (rule normalize_plain_isPaid)
    moreover have "normalize_params (PlainObject ob) ''q'' = js_or (ob ''q'') (Str [])"
      by (simp add: normalize_params_def)
    ultimately show ?thesis
      using wrapper_of_blank [of "PlainObject ob" P] normalize_plain_blank [OF h] by simp
  qed
  show ?thesis
    using f0 f1 o0 o1 d f2 o2 w1 w2 by blast
qed

theorem empty_input_gives_defaults_witness:
  "buildMongoFilters sample_platform
      (Given (no_params(''language'' := Str [], ''tags'' := Null, ''minDownloads'' := Str []))) = Inr []
   \<and> buildListOptions (Given (no_params(''page'' := Str [], ''sort'' := Null))) = default_options
   \<and> buildPdfFiltersAndOptions sample_platform
        (Given (URLSearchParams [(''language'', []), (''isPaid'', []), (''limit'', [])])) =
       Inr \<lparr>fo_filters = [], fo_options = default_options,
            fo_meta = \<lparr>meta_q = Str [], meta_page = Whole 1, meta_limit = Whole 12,
                       meta_sort = Str ''score''\<rparr>\<rparr>
   \<and> buildPdfFiltersAndOptions sample_platform
        (Given (PlainObject (no_params(''isPaid'' := Str [], ''keywords'' := Null)))) =
       Inr \<lparr>fo_filters = [], fo_options = default_options,
            fo_meta = \<lparr>meta_q = Str [], meta_page = Whole 1, meta_limit = Whole 12,
                       meta_sort = Str ''score''\<rparr>\<rparr>"
proof -
  let ?ps = "no_params(''language'' := Str [], ''tags'' := Null, ''minDownloads'' := Str [])"
  let ?qs = "no_params(''page'' := Str [], ''sort'' := Null)"
  let ?xs = "[(''language'', []), (''isPaid'', []), (''limit'', [])] :: (string \<times> string) list"
  let ?ob = "no_params(''isPaid'' := Str [], ''keywords'' := Null)"
  have 1: "list_all (\<lambda>k. blank (?ps k)) filter_params \<and> ?ps ''isPaid'' \<noteq> Str []"
    by (simp add: filter_params_def no_params_def blank_def)
  have 2: "list_all (\<lambda>k. blank (?qs k)) list_params"
    by (simp add: list_params_def no_params_def blank_def)
  have 3: "list_all (\<lambda>p. snd p = []) ?xs" by simp
  have 4: "list_all (\<lambda>k. blank (?ob k)) (filter_params @ list_params)"
    by (simp add: filter_params_def list_params_def no_params_def blank_def)
  have 5: "js_or (?ob ''q'') (Str []) = Str []"
    by (simp add: no_params_def js_or_def)
  show ?thesis
    using empty_input_gives_defaults [of sample_platform ?ps ?xs ?ob]
      empty_input_gives_defaults [of sample_platform ?qs ?xs ?ob] 1 2 3 4 5
    by (simp only: simp_thms)
qed

section \<open>Objects, escaping and the steps of the filter builder\<close>

lemma map_of_obj_set: "map_of (obj_set k v f) k' = (if k' = k then Some v else map_of f k')"
  by (induction f) auto

lemma map_of_obj_delete: "map_of (obj_delete k f) k' = (if k' = k then None else map_of f k')"
  by (induction f) (auto simp: obj_delete_def)

lemma keys_obj_set: "set (obj_keys (obj_set k v f)) = insert k (set (obj_keys f))"
  by (induction f) (auto simp: obj_keys_def)

lemma keys_obj_delete: "set (obj_keys (obj_delete k f)) \<subseteq> set (obj_keys f)"
  by (auto simp: obj_keys_def obj_delete_def)

lemma backslash_syntax: "backslash \<in> set syntax_chars"
  by (simp add: syntax_chars_def)

lemma escape_regex_Cons:
  "escape_regex (c # cs) = (if c \<in> set syntax_chars then [backslash, c] else [c]) @ escape_regex cs"
  by (simp add: escape_regex_def)

lemma literal_text_plain:
  "c \<notin> set syntax_chars \<Longrightarrow> literal_text (c # cs) = map_option ((#) c) (literal_text cs)"
  using backslash_syntax by (cases cs) auto

lemma literal_text_escaped:
  "c \<in> set syntax_chars \<Longrightarrow>
   literal_text (backslash # c # cs) = map_option ((#) c) (literal_text cs)"
  by simp

lemma literal_text_escape: "literal_text (escape_regex kw) = Some kw"
proof (induction kw)
  case Nil
  show ?case by (simp add: escape_regex_def)
next
  case (Cons c cs)
  show ?case
  proof (cases "c \<in> set syntax_chars")
    case True
    then show ?thesis
      using Cons.IH by (simp add: escape_regex_Cons literal_text_escaped del: literal_text.simps)
  next
    case False
    then show ?thesis
      using Cons.IH by (simp add: escape_regex_Cons literal_text_plain del: literal_text.simps)
  qed
qed

lemma new_RegExp_escape: "new_RegExp (escape_regex kw) fl = Inr (RegExpV (escape_regex kw) fl)"
  by (simp add: new_RegExp_def literal_text_escape)

lemma keywords_step_total:
  "keywords_step opts f =
     Inr (case opts ''keywords'' of
            Str kws \<Rightarrow>
              if trim kws \<noteq> []
              then obj_set ''$or''
                     (keyword_clauses (sanitized kws) (RegExpV (escape_regex (sanitized kws)) ''i'')) f
              else f
          | _ \<Rightarrow> f)"
proof -
  have "trim [] = []" by (simp add: trim_def)
  then have "trim kws \<noteq> [] \<Longrightarrow> kws \<noteq> []" for kws by auto
  then show ?thesis
    by (auto simp: keywords_step_def sanitizeString_def new_RegExp_escape
        split: jsval.splits)
qed


lemma step_keys:
  "set (obj_keys (language_step opts f)) \<subseteq> insert ''language'' (set (obj_keys f))"
  "set (obj_keys (category_step opts f)) \<subseteq> insert ''category'' (set (obj_keys f))"
  "set (obj_keys (membership_step name opts f)) \<subseteq> insert name (set (obj_keys f))"
  "set (obj_keys (isPaid_step opts f)) \<subseteq> insert ''isPaid'' (set (obj_keys f))"
  "set (obj_keys (downloads_step opts f)) \<subseteq> insert ''downloads'' (set (obj_keys f))"
  "set (obj_keys (range_step name from to f)) \<subseteq> insert name (set (obj_keys f))"
  "set (obj_keys (level_step opts f)) \<subseteq> insert ''level'' (set (obj_keys f))"
  by (auto simp: language_step_def category_step_def membership_step_def isPaid_step_def
      downloads_step_def range_step_def level_step_def keys_obj_set Let_def
      split: jsval.splits or_fallback.splits if_splits option.splits
      dest: subsetD [OF keys_obj_delete])

lemma step_lookup:
  "k \<noteq> ''language'' \<Longrightarrow> map_of (language_step opts f) k = map_of f k"
  "k \<noteq> ''category'' \<Longrightarrow> map_of (category_step opts f) k = map_of f k"
  "k \<noteq> name \<Longrightarrow> map_of (membership_step name opts f) k = map_of f k"
  "k \<noteq> ''isPaid'' \<Longrightarrow> map_of (isPaid_step opts f) k = map_of f k"
  "k \<noteq> ''downloads'' \<Longrightarrow> map_of (downloads_step opts f) k = map_of f k"
  "k \<noteq> name \<Longrightarrow> map_of (range_step name from to f) k = map_of f k"
  "k \<noteq> ''level'' \<Longrightarrow> map_of (level_step opts f) k = map_of f k"
  by (auto simp: language_step_def category_step_def membership_step_def isPaid_step_def
      downloads_step_def range_step_def level_step_def map_of_obj_set map_of_obj_delete Let_def
      split: jsval.splits or_fallback.splits option.splits)

lemma buildMongoFilters_keys:
  "\<exists>f. buildMongoFilters P (Given opts) = Inr f \<and> set (obj_keys f) \<subseteq> set filter_fields"
proof -
  define f1 where "f1 = language_step opts []"
  define f2 where "f2 = category_step opts f1"
  define f3 where "f3 = tags_step opts f2"
  define f4 where "f4 = locations_step opts f3"
  define f5 where "f5 = isPaid_step opts f4"
  define f6 where "f6 = downloads_step opts f5"
  define f7 where "f7 = publishedAt_step P opts f6"
  define f8 where "f8 = examDate_step P opts f7"
  define f9 where "f9 = level_step opts f8"
  have b: "buildMongoFilters P (Given opts) = keywords_step opts f9"
    by (simp add: buildMongoFilters_Given f1_def f2_def f3_def f4_def f5_def f6_def
        f7_def f8_def f9_def)
  have m: "''language'' \<in> set filter_fields" "''category'' \<in> set filter_fields"
    "''tags'' \<in> set filter_fields" "''locations'' \<in> set filter_fields"
    "''isPaid'' \<in> set filter_fields" "''downloads'' \<in> set filter_fields"
    "''publishedAt'' \<in> set filter_fields" "''examDate'' \<in> set filter_fields"
    "''level'' \<in> set filter_fields" "''$or'' \<in> set filter_fields"
    by (simp_all add: filter_fields_def)
  have 0: "set (obj_keys []) \<subseteq> set filter_fields"
    by (simp add: obj_keys_def)
  have 1: "set (obj_keys f1) \<subseteq> set filter_fields"
    using step_keys(1) [of opts "[]"] 0 m(1) unfolding f1_def by blast
  have 2: "set (obj_keys f2) \<subseteq> set filter_fields"
    using step_keys(2) [of opts f1] 1 m(2) unfolding f2_def by blast
  have 3: "set (obj_keys f3) \<subseteq> set filter_fields"
    using step_keys(3) [of "''tags''" opts f2] 2 m(3) unfolding f3_def tags_step_def by blast
  have 4: "set (obj_keys f4) \<subseteq> set filter_fields"
    using step_keys(3) [of "''locations''" opts f3] 3 m(4)
    unfolding f4_def locations_step_def by blast
  have 5: "set (obj_keys f5) \<subseteq> set filter_fields"
    using step_keys(4) [of opts f4] 4 m(5) unfolding f5_def by blast
  have 6: "set (obj_keys f6) \<subseteq> set filter_fields"
    using step_keys(5) [of opts f5] 5 m(6) unfolding f6_def by blast
  have 7: "set (obj_keys f7) \<subseteq> set filter_fields"
    using step_keys(6) [of "''publishedAt''" _ _ f6] 6 m(7)
    unfolding f7_def publishedAt_step_def by blast
  have 8: "set (obj_keys f8) \<subseteq> set filter_fields"
    using step_keys(6) [of "''examDate''" _ _ f7] 7 m(8)
    unfolding f8_def examDate_step_def by blast
  have 9: "set (obj_keys f9) \<subseteq> set filter_fields"
    using step_keys(7) [of opts f8] 8 m(9) unfolding f9_def by blast
  have "set (obj_keys (obj_set ''$or'' c f9)) \<subseteq> set filter_fields" for c
    using 9 m(10) unfolding keys_obj_set by blast
  then show ?thesis
    unfolding b keywords_step_total using 9 by (auto split: jsval.splits)
qed

lemma buildMongoFilters_cong:
  assumes "\<And>k. k \<in> set filter_params \<Longrightarrow> ps k = ps' k"
  shows "buildMongoFilters P (Given ps) = buildMongoFilters P (Given ps')"
proof -
  have e: "ps ''language'' = ps' ''language''" "ps ''category'' = ps' ''category''"
    "ps ''tags'' = ps' ''tags''" "ps ''locations'' = ps' ''locations''"
    "ps ''isPaid'' = ps' ''isPaid''" "ps ''minDownloads'' = ps' ''minDownloads''"
    "ps ''dateFrom'' = ps' ''dateFrom''" "ps ''dateTo'' = ps' ''dateTo''"
    "ps ''examDateFrom'' = ps' ''examDateFrom''" "ps ''examDateTo'' = ps' ''examDateTo''"
    "ps ''level'' = ps' ''level''" "ps ''keywords'' = ps' ''keywords''"
    by (rule assms, simp add: filter_params_def)+
  have s: "language_step ps = language_step ps'" "category_step ps = category_step ps'"
    "tags_step ps = tags_step ps'" "locations_step ps = locations_step ps'"
    "isPaid_step ps = isPaid_step ps'" "downloads_step ps = downloads_step ps'"
    "publishedAt_step P ps = publishedAt_step P ps'" "examDate_step P ps = examDate_step P ps'"
    "level_step ps = level_step ps'" "keywords_step ps = keywords_step ps'"
    by (simp_all add: fun_eq_iff e language_step_def category_step_def tags_step_def
        locations_step_def membership_step_def isPaid_step_def downloads_step_def
        publishedAt_step_def examDate_step_def level_step_def keywords_step_def)
  show ?thesis
    by (simp add: buildMongoFilters_Given s)
qed

lemma wrapper_filters:
  "map_sum id fo_filters (buildPdfFiltersAndOptions P (Given q)) =
     buildMongoFilters P (Given (list_param ''locations'' (list_param ''tags'' (normalize_params q))))"
  by (simp add: buildPdfFiltersAndOptions_def properties_of_def Let_def split: sum.splits)

lemma list_param_agree:
  assumes "ps name = ps' name" and "ps k = ps' k"
  shows "list_param name ps k = list_param name ps' k"
  using assms by (auto simp: list_param_def split: jsval.splits)

lemma wrapper_filters_cong:
  assumes "\<And>k. k \<in> set filter_params \<Longrightarrow> normalize_params q k = normalize_params q' k"
  shows "map_sum id fo_filters (buildPdfFiltersAndOptions P (Given q)) =
     map_sum id fo_filters (buildPdfFiltersAndOptions P (Given q'))"
proof -
  have t: "normalize_params q ''tags'' = normalize_params q' ''tags''"
    and l: "normalize_params q ''locations'' = normalize_params q' ''locations''"
    by (rule assms, simp add: filter_params_def)+
  have "list_param ''locations'' (list_param ''tags'' (normalize_params q)) k =
      list_param ''locations'' (list_param ''tags'' (normalize_params q')) k"
    if "k \<in> set filter_params" for k
    by (intro list_param_agree t l assms that)
  then show ?thesis
    unfolding wrapper_filters by (rule buildMongoFilters_cong)
qed

section \<open>The keys of the filter\<close>

lemma wrapper_keys:
  "\<exists>r. buildPdfFiltersAndOptions P (Given q) = Inr r
      \<and> set (obj_keys (fo_filters r)) \<subseteq> set filter_fields"
proof -
  define ps where "ps = list_param ''locations'' (list_param ''tags'' (normalize_params q))"
  obtain f where f: "buildMongoFilters P (Given ps) = Inr f"
    and k: "set (obj_keys f) \<subseteq> set filter_fields"
    using buildMongoFilters_keys [of P ps] by blast
  have "\<exists>opts m. buildPdfFiltersAndOptions P (Given q) =
      Inr \<lparr>fo_filters = f, fo_options = opts, fo_meta = m\<rparr>"
    by (simp add: buildPdfFiltersAndOptions_def properties_of_def Let_def ps_def [symmetric] f)
  then show ?thesis
    using k by auto
qed

lemma keys_of_any_argument:
  "buildMongoFilters P a = Inr f \<Longrightarrow> set (obj_keys f) \<subseteq> set filter_fields"
  "buildPdfFiltersAndOptions P qa = Inr r \<Longrightarrow> set (obj_keys (fo_filters r)) \<subseteq> set filter_fields"
proof -
  have g: "set (obj_keys f) \<subseteq> set filter_fields" if "buildMongoFilters P (Given opts) = Inr f"
    for opts
    using buildMongoFilters_keys [of P opts] that by auto
  show "set (obj_keys f) \<subseteq> set filter_fields" if "buildMongoFilters P a = Inr f"
  proof (cases a)
    case Omitted
    then show ?thesis using that g [of no_params] by (simp add: buildMongoFilters_Omitted)
  next
    case Null_given
    then show ?thesis using that by (simp add: buildMongoFilters_null)
  next
    case (Given opts)
    then show ?thesis using that g [of opts] by simp
  qed
  have w: "set (obj_keys (fo_filters r)) \<subseteq> set filter_fields"
    if "buildPdfFiltersAndOptions P (Given q) = Inr r" for q
    using wrapper_keys [of P q] that by auto
  show "set (obj_keys (fo_filters r)) \<subseteq> set filter_fields"
    if "buildPdfFiltersAndOptions P qa = Inr r"
  proof (cases qa)
    case Omitted
    then show ?thesis using that w [of "PlainObject no_params"] by (simp add: wrapper_Omitted)
  next
    case Null_given
    then show ?thesis using that by (simp add: wrapper_null)
  next
    case (Given q)
    then show ?thesis using that w [of q] by simp
  qed
qed

lemma normalize_plain_at:
  "n \<in> set filter_params \<Longrightarrow>
   normalize_params (PlainObject ob) n =
     (if n = ''isPaid''
      then (if ob n \<noteq> Undefined then parseBoolean (ob n) Undefined else Undefined)
      else ob n)"
  by (auto simp: filter_params_def normalize_params_def no_params_def)

lemma normalize_plain_cong:
  "n \<in> set filter_params \<Longrightarrow> ob n = ob' n \<Longrightarrow>
   normalize_params (PlainObject ob) n = normalize_params (PlainObject ob') n"
  by (simp only: normalize_plain_at)

lemma normalize_plain_upd:
  assumes "k \<notin> set filter_params" and "n \<in> set filter_params"
  shows "normalize_params (PlainObject (ob(k := v))) n = normalize_params (PlainObject ob) n"
proof -
  have "n \<noteq> k" using assms by auto
  then show ?thesis
    by (intro normalize_plain_cong assms(2)) simp
qed

lemma us_insert:
  "n \<noteq> k \<Longrightarrow> us_get (xs @ (k, w) # ys) n = us_get (xs @ ys) n"
  "n \<noteq> k \<Longrightarrow> us_has (xs @ (k, w) # ys) n = us_has (xs @ ys) n"
  by (simp_all add: us_get_def us_has_def map_add_def split: option.splits)

lemma normalize_url_at:
  "n \<in> set filter_params \<Longrightarrow>
   normalize_params (URLSearchParams xs) n =
     (if n = ''isPaid''
      then (if us_has xs n then parseBoolean (us_get xs n) Undefined else Undefined)
      else js_or (us_get xs n) Undefined)"
  by (auto simp: filter_params_def normalize_params_def no_params_def)

lemma normalize_url_cong:
  "n \<in> set filter_params \<Longrightarrow> us_get xs n = us_get xs' n \<Longrightarrow> us_has xs n = us_has xs' n \<Longrightarrow>
   normalize_params (URLSearchParams xs) n = normalize_params (URLSearchParams xs') n"
  by (simp only: normalize_url_at)

lemma normalize_url_upd:
  assumes "k \<notin> set filter_params" and "n \<in> set filter_params"
  shows "normalize_params (URLSearchParams (xs @ (k, w) # ys)) n =
     normalize_params (URLSearchParams (xs @ ys)) n"
proof -
  have "n \<noteq> k" using assms by auto
  then show ?thesis
    by (intro normalize_url_cong assms(2) us_insert)
qed

text \<open>
  C2. Every key of the filter that \<^verbatim>\<open>buildMongoFilters\<close> returns, called directly or
  through \<^verbatim>\<open>buildPdfFiltersAndOptions\<close>, is one of language, category, tags, locations,
  isPaid, downloads, publishedAt, examDate, level and $or: a filter is returned for
  every parameter bag and every query, and for the argument left out, and its keys are
  among the ten; whatever the argument, a filter that is returned has its keys among
  the ten. A parameter whose name is not one of the twelve that the builder reads is
  ignored: adding it, with any value, to the parameter bag, to the plain object or
  anywhere in the query string leaves the filter unchanged.
\<close>

theorem filter_keys_are_supported:
  "(\<exists>f. buildMongoFilters P (Given ps) = Inr f \<and> set (obj_keys f) \<subseteq> set filter_fields)
   \<and> (\<exists>f. buildMongoFilters P Omitted = Inr f \<and> set (obj_keys f) \<subseteq> set filter_fields)
   \<and> (buildMongoFilters P a = Inr f \<longrightarrow> set (obj_keys f) \<subseteq> set filter_fields)
   \<and> (\<exists>r. buildPdfFiltersAndOptions P (Given q) = Inr r
          \<and> set (obj_keys (fo_filters r)) \<subseteq> set filter_fields)
   \<and> (\<exists>r. buildPdfFiltersAndOptions P Omitted = Inr r
          \<and> set (obj_keys (fo_filters r)) \<subseteq> set filter_fields)
   \<and> (buildPdfFiltersAndOptions P qa = Inr r
        \<longrightarrow> set (obj_keys (fo_filters r)) \<subseteq> set filter_fields)
   \<and> (k \<notin> set filter_params
        \<longrightarrow> buildMongoFilters P (Given (ps(k := v))) = buildMongoFilters P (Given ps))
   \<and> (k \<notin> set filter_params
        \<longrightarrow> map_sum id fo_filters (buildPdfFiltersAndOptions P (Given (PlainObject (ps(k := v))))) =
            map_sum id fo_filters (buildPdfFiltersAndOptions P (Given (PlainObject ps))))
   \<and> (k \<notin> set filter_params
        \<longrightarrow> map_sum id fo_filters
              (buildPdfFiltersAndOptions P (Given (URLSearchParams (xs @ (k, w) # ys)))) =
            map_sum id fo_filters (buildPdfFiltersAndOptions P (Given (URLSearchParams (xs @ ys)))))"
proof -
  have 1: "buildMongoFilters P (Given (ps(k := v))) = buildMongoFilters P (Given ps)"
    if "k \<notin> set filter_params"
    using that by (intro buildMongoFilters_cong) auto
  have 2: "map_sum id fo_filters (buildPdfFiltersAndOptions P (Given (PlainObject (ps(k := v))))) =
      map_sum id fo_filters (buildPdfFiltersAndOptions P (Given (PlainObject ps)))"
    if "k \<notin> set filter_params"
    by (intro wrapper_filters_cong normalize_plain_upd that)
  have 3: "map_sum id fo_filters
        (buildPdfFiltersAndOptions P (Given (URLSearchParams (xs @ (k, w) # ys)))) =
      map_sum id fo_filters (buildPdfFiltersAndOptions P (Given (URLSearchParams (xs @ ys))))"
    if "k \<notin> set filter_params"
    by (intro wrapper_filters_cong normalize_url_upd that)
  have o: "\<exists>f. buildMongoFilters P Omitted = Inr f \<and> set (obj_keys f) \<subseteq> set filter_fields"
    using buildMongoFilters_keys [of P no_params] by (simp add: buildMongoFilters_Omitted)
  have w: "\<exists>r. buildPdfFiltersAndOptions P Omitted = Inr r
      \<and> set (obj_keys (fo_filters r)) \<subseteq> set filter_fields"
    using wrapper_keys [of P "PlainObject no_params"] by (simp add: wrapper_Omitted)
  show ?thesis
    using buildMongoFilters_keys [of P ps] o keys_of_any_argument(1) [of P a f]
      wrapper_keys [of P q] w keys_of_any_argument(2) [of P qa r] 1 2 3
    by blast
qed

theorem filter_keys_are_supported_witness:
  "buildMongoFilters sample_platform
      (Given (no_params(''language'' := Str ''en'', ''utm_source'' := Str ''mail''))) =
     buildMongoFilters sample_platform (Given (no_params(''language'' := Str ''en'')))
   \<and> map_sum id fo_filters (buildPdfFiltersAndOptions sample_platform
        (Given (PlainObject (no_params(''language'' := Str ''en'', ''utm_source'' := Str ''mail''))))) =
     map_sum id fo_filters (buildPdfFiltersAndOptions sample_platform
        (Given (PlainObject (no_params(''language'' := Str ''en'')))))
   \<and> map_sum id fo_filters (buildPdfFiltersAndOptions sample_platform
        (Given (URLSearchParams [(''language'', ''en''), (''utm_source'', ''mail''), (''level'', ''a'')]))) =
     map_sum id fo_filters (buildPdfFiltersAndOptions sample_platform
        (Given (URLSearchParams [(''language'', ''en''), (''level'', ''a'')])))"
proof -
  have h: "''utm_source'' \<notin> set filter_params"
    by (simp add: filter_params_def)
  show ?thesis
    using h filter_keys_are_supported [of sample_platform "no_params(''language'' := Str ''en'')"
        Omitted "[]" "PlainObject no_params" Omitted
        "\<lparr>fo_filters = [], fo_options = default_options,
          fo_meta = \<lparr>meta_q = Str [], meta_page = Whole 1, meta_limit = Whole 12,
                     meta_sort = Str ''score''\<rparr>\<rparr>"
        "''utm_source''" "Str ''mail''" "[(''language'', ''en'')]" "''mail''" "[(''level'', ''a'')]"]
    by simp
qed

section \<open>The paid flag\<close>

lemma buildMongoFilters_isPaid:
  "\<exists>f. buildMongoFilters P (Given ps) = Inr f
      \<and> map_of f ''isPaid'' =
          (if ps ''isPaid'' = Undefined \<or> ps ''isPaid'' = Null then None
           else Some (Val (Bool (truthy (ps ''isPaid'')))))"
proof -
  define f4 where "f4 = locations_step ps (tags_step ps (category_step ps (language_step ps [])))"
  define f5 where "f5 = isPaid_step ps f4"
  define f9 where "f9 = level_step ps (examDate_step P ps (publishedAt_step P ps (downloads_step ps f5)))"
  have b: "buildMongoFilters P (Given ps) = keywords_step ps f9"
    by (simp add: buildMongoFilters_Given f4_def f5_def f9_def)
  have 4: "map_of f4 ''isPaid'' = None"
    by (simp add: f4_def step_lookup tags_step_def locations_step_def)
  have 5: "map_of f5 ''isPaid'' =
      (if ps ''isPaid'' = Undefined \<or> ps ''isPaid'' = Null then None
       else Some (Val (Bool (truthy (ps ''isPaid'')))))"
    using 4 by (simp add: f5_def isPaid_step_def map_of_obj_set)
  have 9: "map_of f9 ''isPaid'' = map_of f5 ''isPaid''"
    by (simp add: f9_def step_lookup publishedAt_step_def examDate_step_def)
  have "map_of (obj_set ''$or'' c f9) ''isPaid'' = map_of f9 ''isPaid''" for c
    by (simp add: map_of_obj_set)
  then show ?thesis
    unfolding b keywords_step_total using 5 9 by (auto split: jsval.splits)
qed

lemma wrapper_result:
  assumes "buildMongoFilters P
      (Given (list_param ''locations'' (list_param ''tags'' (normalize_params q)))) = Inr f"
  shows "\<exists>r. buildPdfFiltersAndOptions P (Given q) = Inr r \<and> fo_filters r = f"
  using assms by (simp add: buildPdfFiltersAndOptions_def properties_of_def Let_def)

lemma list_param_other: "k \<noteq> name \<Longrightarrow> list_param name ps k = ps k"
  by (auto simp: list_param_def split: jsval.splits)

lemma wrapper_isPaid:
  "\<exists>r. buildPdfFiltersAndOptions P (Given q) = Inr r
      \<and> map_of (fo_filters r) ''isPaid'' =
          (if normalize_params q ''isPaid'' = Undefined \<or> normalize_params q ''isPaid'' = Null
           then None
           else Some (Val (Bool (truthy (normalize_params q ''isPaid'')))))"
proof -
  define ps where "ps = list_param ''locations'' (list_param ''tags'' (normalize_params q))"
  have e: "ps ''isPaid'' = normalize_params q ''isPaid''"
    by (simp add: ps_def list_param_other)
  obtain f where f: "buildMongoFilters P (Given ps) = Inr f"
    and m: "map_of f ''isPaid'' =
      (if ps ''isPaid'' = Undefined \<or> ps ''isPaid'' = Null then None
       else Some (Val (Bool (truthy (ps ''isPaid'')))))"
    using buildMongoFilters_isPaid [of P ps] by blast
  obtain r where "buildPdfFiltersAndOptions P (Given q) = Inr r" "fo_filters r = f"
    using wrapper_result [of P q f] f by (auto simp: ps_def)
  then show ?thesis
    using m e by auto
qed

lemma parseBoolean_cases:
  "parseBoolean v Undefined = Bool True \<or> parseBoolean v Undefined = Bool False
   \<or> parseBoolean v Undefined = Undefined"
  by (auto simp: parseBoolean_def Let_def split: jsval.splits)

lemma paid_of_parseBoolean:
  assumes "x = parseBoolean v Undefined"
  shows "(if x = Undefined \<or> x = Null then None else Some (Val (Bool (truthy x)))) =
     (case x of Bool b \<Rightarrow> Some (Val (Bool b)) | _ \<Rightarrow> None)"
  using parseBoolean_cases [of v] assms by auto

lemma parseBoolean_samples:
  "parseBoolean (Str ''false'') Undefined = Bool False"
  "parseBoolean (Str ''0'') Undefined = Bool False"
  "parseBoolean (Str ''no'') Undefined = Bool False"
  "parseBoolean (Str ''maybe'') Undefined = Undefined"
  "parseBoolean (Str ''TRUE'') Undefined = Bool True"
  by code_simp+


lemma normalize_isPaid:
  "normalize_params (URLSearchParams ((''isPaid'', s) # xs)) ''isPaid'' = parseBoolean (Str s) Undefined"
  "normalize_params (PlainObject (ps(''isPaid'' := v))) ''isPaid'' = parseBoolean v Undefined"
proof -
  have m: "''isPaid'' \<in> set filter_params" by (simp add: filter_params_def)
  show "normalize_params (URLSearchParams ((''isPaid'', s) # xs)) ''isPaid'' =
      parseBoolean (Str s) Undefined"
    by (simp add: normalize_url_at [OF m] us_has_def us_get_def)
  show "normalize_params (PlainObject (ps(''isPaid'' := v))) ''isPaid'' = parseBoolean v Undefined"
    by (simp add: normalize_plain_at [OF m] parseBoolean_def)
qed

text \<open>
  C10. Called directly, \<^verbatim>\<open>buildMongoFilters\<close> sets the field \<^verbatim>\<open>isPaid\<close> of the filter
  to the truthiness of the parameter whenever that is neither \<^verbatim>\<open>undefined\<close> nor
  \<^verbatim>\<open>null\<close>: every non-empty string gives \<^verbatim>\<open>true\<close>, the strings "false", "0" and "no"
  among them. The wrapper \<^verbatim>\<open>buildPdfFiltersAndOptions\<close> passes the value through
  \<^verbatim>\<open>parseBoolean\<close> first, for a query string and for a plain object: "false", "0" and
  "no" become \<^verbatim>\<open>false\<close>, and a spelling that \<^verbatim>\<open>parseBoolean\<close> does not know leaves the
  filter without the field.
\<close>

theorem isPaid_direct_and_wrapped:
  "(\<exists>f. buildMongoFilters P (Given ps) = Inr f
       \<and> map_of f ''isPaid'' =
           (if ps ''isPaid'' = Undefined \<or> ps ''isPaid'' = Null then None
            else Some (Val (Bool (truthy (ps ''isPaid''))))))
   \<and> (\<exists>f. buildMongoFilters P (Given (ps(''isPaid'' := Str (c # s)))) = Inr f
       \<and> map_of f ''isPaid'' = Some (Val (Bool True)))
   \<and> (\<exists>f. buildMongoFilters P (Given (ps(''isPaid'' := Str ''false''))) = Inr f
       \<and> map_of f ''isPaid'' = Some (Val (Bool True)))
   \<and> (\<exists>f. buildMongoFilters P (Given (ps(''isPaid'' := Str ''0''))) = Inr f
       \<and> map_of f ''isPaid'' = Some (Val (Bool True)))
   \<and> (\<exists>f. buildMongoFilters P (Given (ps(''isPaid'' := Str ''no''))) = Inr f
       \<and> map_of f ''isPaid'' = Some (Val (Bool True)))
   \<and> (\<exists>r. buildPdfFiltersAndOptions P (Given (URLSearchParams ((''isPaid'', s) # xs))) = Inr r
       \<and> map_of (fo_filters r) ''isPaid'' =
           (case parseBoolean (Str s) Undefined of Bool b \<Rightarrow> Some (Val (Bool b)) | _ \<Rightarrow> None))
   \<and> (\<exists>r. buildPdfFiltersAndOptions P (Given (PlainObject (ps(''isPaid'' := v)))) = Inr r
       \<and> map_of (fo_filters r) ''isPaid'' =
           (case parseBoolean v Undefined of Bool b \<Rightarrow> Some (Val (Bool b)) | _ \<Rightarrow> None))
   \<and> parseBoolean (Str ''false'') Undefined = Bool False
   \<and> parseBoolean (Str ''0'') Undefined = Bool False
   \<and> parseBoolean (Str ''no'') Undefined = Bool False
   \<and> parseBoolean (Str ''maybe'') Undefined = Undefined"
proof -
  have d: "\<exists>f. buildMongoFilters P (Given (ps(''isPaid'' := Str (c # s)))) = Inr f
      \<and> map_of f ''isPaid'' = Some (Val (Bool True))" for c s
    using buildMongoFilters_isPaid [of P "ps(''isPaid'' := Str (c # s))"] by simp
  have u: "\<exists>r. buildPdfFiltersAndOptions P (Given (URLSearchParams ((''isPaid'', s) # xs))) = Inr r
      \<and> map_of (fo_filters r) ''isPaid'' =
          (case parseBoolean (Str s) Undefined of Bool b \<Rightarrow> Some (Val (Bool b)) | _ \<Rightarrow> None)"
    using wrapper_isPaid [of P "URLSearchParams ((''isPaid'', s) # xs)"]
    unfolding normalize_isPaid paid_of_parseBoolean [OF refl] .
  have o: "\<exists>r. buildPdfFiltersAndOptions P (Given (PlainObject (ps(''isPaid'' := v)))) = Inr r
      \<and> map_of (fo_filters r) ''isPaid'' =
          (case parseBoolean v Undefined of Bool b \<Rightarrow> Some (Val (Bool b)) | _ \<Rightarrow> None)"
    using wrapper_isPaid [of P "PlainObject (ps(''isPaid'' := v))"]
    unfolding normalize_isPaid paid_of_parseBoolean [OF refl] .
  show ?thesis
    using buildMongoFilters_isPaid [of P ps] d [of c s] d [of "CHR ''f''" "''alse''"]
      d [of "CHR ''0''" "[]"] d [of "CHR ''n''" "''o''"] u o parseBoolean_samples(1-4)
    by (simp only: simp_thms)
qed

section \<open>The keyword fallback\<close>

lemma take_is_start: "(take (length t) s = t) = (\<exists>q. s = t @ q)"
  by (metis append_eq_conv_conj append_take_drop_id)

lemma has_substring_iff: "has_substring t s = (\<exists>p q. s = p @ t @ q)"
proof (induction s)
  case Nil
  show ?case by auto
next
  case (Cons c cs)
  have "(\<exists>p q. c # cs = p @ t @ q) = ((\<exists>q. c # cs = t @ q) \<or> (\<exists>p q. cs = p @ t @ q))"
  proof
    assume "\<exists>p q. c # cs = p @ t @ q"
    then obtain p q where e: "c # cs = p @ t @ q" by blast
    show "(\<exists>q. c # cs = t @ q) \<or> (\<exists>p q. cs = p @ t @ q)"
    proof (cases p)
      case Nil
      then show ?thesis using e by auto
    next
      case (Cons a p')
      then have "cs = p' @ t @ q" using e by simp
      then show ?thesis by blast
    qed
  next
    assume "(\<exists>q. c # cs = t @ q) \<or> (\<exists>p q. cs = p @ t @ q)"
    then show "\<exists>p q. c # cs = p @ t @ q"
    proof
      assume "\<exists>q. c # cs = t @ q"
      then obtain q where "c # cs = [] @ t @ q" by auto
      then show ?thesis by blast
    next
      assume "\<exists>p q. cs = p @ t @ q"
      then obtain p q where "c # cs = (c # p) @ t @ q" by auto
      then show ?thesis by blast
    qed
  qed
  then show ?case
    using Cons.IH take_is_start [of t "c # cs"] by (simp del: take_Suc_Cons)
qed

lemma regex_test_escaped:
  "regex_test (RegExpV (escape_regex kw) ''i'') subject =
     (\<exists>p q. map canonicalize subject = p @ map canonicalize kw @ q)"
  by (simp add: regex_test_def literal_text_escape has_substring_iff)

lemma buildMongoFilters_or:
  "\<exists>f. buildMongoFilters P (Given ps) = Inr f
      \<and> map_of f ''$or'' =
          (case ps ''keywords'' of
             Str kws \<Rightarrow>
               if trim kws \<noteq> []
               then Some (keyword_clauses (sanitized kws)
                            (RegExpV (escape_regex (sanitized kws)) ''i''))
               else None
           | _ \<Rightarrow> None)"
proof -
  define f9 where "f9 = level_step ps (examDate_step P ps (publishedAt_step P ps
    (downloads_step ps (isPaid_step ps (locations_step ps (tags_step ps (category_step ps
    (language_step ps []))))))))"
  have b: "buildMongoFilters P (Given ps) = keywords_step ps f9"
    by (simp add: buildMongoFilters_Given f9_def)
  have 9: "map_of f9 ''$or'' = None"
    by (simp add: f9_def step_lookup publishedAt_step_def examDate_step_def tags_step_def
        locations_step_def)
  show ?thesis
    unfolding b keywords_step_total using 9 by (auto simp: map_of_obj_set split: jsval.splits)
qed

lemma cpp_facts:
  "sanitized ''C++'' = ''C++''" "trim ''C++'' \<noteq> []" "trim '' '' = []"
  "escape_regex ''C++'' = [CHR ''C'', backslash, CHR ''+'', backslash, CHR ''+'']"
  "map canonicalize ''C++'' = ''C++''"
  "regex_test (RegExpV (escape_regex ''C++'') ''i'') ''Learn C++ in a week''"
  "regex_test (RegExpV (escape_regex ''C++'') ''i'') ''c++ for beginners''"
  "\<not> regex_test (RegExpV (escape_regex ''C++'') ''i'') ''CCC''"
  "\<not> regex_test (RegExpV (escape_regex ''C++'') ''i'') ''Cooking at home''"
  by code_simp+


text \<open>
  C1, as the code has it. For a keywords string that is not empty after trimming, the
  filter has the clause \<^verbatim>\<open>$or\<close> over exactly the fields title_en, title_hi, title_bn and
  description, each with the pattern compiled from the sanitized keywords with the flag
  \<^verbatim>\<open>i\<close>, and the membership of the sanitized keywords in tags. Every syntax character of
  the keywords is escaped, so the pattern is read as the text of the keywords and matches
  the subjects that contain this text, letter case aside. For "C++" the pattern is
  \<^verbatim>\<open>C\+\+\<close>, which matches what contains "C++" or "c++" and nothing else. A keywords
  string of white space only adds no clause.
\<close>

theorem keywords_clause:
  "(trim kws \<noteq> []
      \<longrightarrow> (\<exists>f. buildMongoFilters P (Given (ps(''keywords'' := Str kws))) = Inr f
            \<and> map_of f ''$or'' =
                Some (ArrV [ObjV [(''title_en'', RegExpV (escape_regex (sanitized kws)) ''i'')],
                            ObjV [(''title_hi'', RegExpV (escape_regex (sanitized kws)) ''i'')],
                            ObjV [(''title_bn'', RegExpV (escape_regex (sanitized kws)) ''i'')],
                            ObjV [(''description'', RegExpV (escape_regex (sanitized kws)) ''i'')],
                            ObjV [(''tags'', ObjV [(''$in'', Val (Arr [Str (sanitized kws)]))])]])))
   \<and> (trim kws = []
      \<longrightarrow> (\<exists>f. buildMongoFilters P (Given (ps(''keywords'' := Str kws))) = Inr f
            \<and> map_of f ''$or'' = None))
   \<and> literal_text (escape_regex kw) = Some kw
   \<and> regex_test (RegExpV (escape_regex kw) ''i'') subject =
       (\<exists>p q. map canonicalize subject = p @ map canonicalize kw @ q)
   \<and> escape_regex ''C++'' = [CHR ''C'', backslash, CHR ''+'', backslash, CHR ''+'']
   \<and> regex_test (RegExpV (escape_regex ''C++'') ''i'') subject =
       (\<exists>p q. map canonicalize subject = p @ ''C++'' @ q)
   \<and> regex_test (RegExpV (escape_regex ''C++'') ''i'') ''Learn C++ in a week''
   \<and> regex_test (RegExpV (escape_regex ''C++'') ''i'') ''c++ for beginners''
   \<and> \<not> regex_test (RegExpV (escape_regex ''C++'') ''i'') ''CCC''
   \<and> \<not> regex_test (RegExpV (escape_regex ''C++'') ''i'') ''Cooking at home''"
proof -
  have a: "\<exists>f. buildMongoFilters P (Given (ps(''keywords'' := Str kws))) = Inr f
      \<and> map_of f ''$or'' =
          Some (ArrV [ObjV [(''title_en'', RegExpV (escape_regex (sanitized kws)) ''i'')],
                      ObjV [(''title_hi'', RegExpV (escape_regex (sanitized kws)) ''i'')],
                      ObjV [(''title_bn'', RegExpV (escape_regex (sanitized kws)) ''i'')],
                      ObjV [(''description'', RegExpV (escape_regex (sanitized kws)) ''i'')],
                      ObjV [(''tags'', ObjV [(''$in'', Val (Arr [Str (sanitized kws)]))])]])"
    if "trim kws \<noteq> []"
    using buildMongoFilters_or [of P "ps(''keywords'' := Str kws)"] that
    by (simp add: keyword_clauses_def in_list_def)
  have b: "\<exists>f. buildMongoFilters P (Given (ps(''keywords'' := Str kws))) = Inr f
      \<and> map_of f ''$or'' = None"
    if "trim kws = []"
    using buildMongoFilters_or [of P "ps(''keywords'' := Str kws)"] that by simp
  have c: "regex_test (RegExpV (escape_regex ''C++'') ''i'') subject =
      (\<exists>p q. map canonicalize subject = p @ ''C++'' @ q)"
    unfolding regex_test_escaped cpp_facts(5) ..
  show ?thesis
    using a b c literal_text_escape [of kw] regex_test_escaped [of kw subject] cpp_facts(4,6-9)
    by blast
qed

theorem keywords_clause_witness:
  "(\<exists>f. buildMongoFilters sample_platform (Given (no_params(''keywords'' := Str ''C++''))) = Inr f
       \<and> map_of f ''$or'' =
           Some (ArrV [ObjV [(''title_en'', RegExpV [CHR ''C'', backslash, CHR ''+'', backslash, CHR ''+''] ''i'')],
                       ObjV [(''title_hi'', RegExpV [CHR ''C'', backslash, CHR ''+'', backslash, CHR ''+''] ''i'')],
                       ObjV [(''title_bn'', RegExpV [CHR ''C'', backslash, CHR ''+'', backslash, CHR ''+''] ''i'')],
                       ObjV [(''description'', RegExpV [CHR ''C'', backslash, CHR ''+'', backslash, CHR ''+''] ''i'')],
                       ObjV [(''tags'', ObjV [(''$in'', Val (Arr [Str ''C++'']))])]]))
   \<and> (\<exists>f. buildMongoFilters sample_platform (Given (no_params(''keywords'' := Str '' ''))) = Inr f
       \<and> map_of f ''$or'' = None)"
  using keywords_clause [of "''C++''" sample_platform no_params]
    keywords_clause [of "'' ''" sample_platform no_params] cpp_facts(1-4)
  by simp

text \<open>
  A keywords string that is not empty and gets no clause: one blank. The filter stays
  empty.
\<close>

theorem keywords_blank_counterexample:
  "Str '' '' \<noteq> Str [] \<and>
   buildMongoFilters sample_platform (Given (no_params(''keywords'' := Str '' ''))) = Inr []"
proof -
  have "buildMongoFilters sample_platform (Given (no_params(''keywords'' := Str '' ''))) =
      keywords_step (no_params(''keywords'' := Str '' '')) []"
    by (simp add: buildMongoFilters_Given language_step_def category_step_def tags_step_def
        locations_step_def membership_step_def isPaid_step_def downloads_step_def
        publishedAt_step_def examDate_step_def range_step_def level_step_def no_params_def
        parseInteger_def parseDate_def)
  also have "\<dots> = Inr []"
    by (simp add: keywords_step_total cpp_facts(3))
  finally show ?thesis by simp
qed

section \<open>Sort names\<close>

lemma buildListOptions_sort:
  "lo_sort (buildListOptions (Given (ps(''sort'' := Str k)))) =
     (if k \<in> set (obj_keys SORT_MAP) then SORT_MAP_get k
      else if k \<in> set object_prototype_keys then Builtin k
      else score_order)"
proof -
  have own: "truthy_doc (SORT_MAP_get k)" if "k \<in> set (obj_keys SORT_MAP)"
    using that by (auto simp: obj_keys_def SORT_MAP_def SORT_MAP_get_def)
  have inh: "SORT_MAP_get k = Builtin k"
    if "k \<notin> set (obj_keys SORT_MAP)" "k \<in> set object_prototype_keys"
  proof -
    have "map_of SORT_MAP k = None"
      using that(1) by (simp add: obj_keys_def map_of_eq_None_iff)
    then show ?thesis using that(2) by (simp add: SORT_MAP_get_def)
  qed
  have none: "SORT_MAP_get k = Val Undefined"
    if "k \<notin> set (obj_keys SORT_MAP)" "k \<notin> set object_prototype_keys"
  proof -
    have "map_of SORT_MAP k = None"
      using that(1) by (simp add: obj_keys_def map_of_eq_None_iff)
    then show ?thesis using that(2) by (simp add: SORT_MAP_get_def)
  qed
  show ?thesis
    using own inh none
    by (auto simp: buildListOptions_def Let_def SORT_MAP_score)
qed

lemma sort_names:
  "''downloads'' \<in> set (obj_keys SORT_MAP)" "''score'' \<in> set (obj_keys SORT_MAP)"
  "''bogus'' \<notin> set (obj_keys SORT_MAP)" "''bogus'' \<notin> set object_prototype_keys"
  "''constructor'' \<notin> set (obj_keys SORT_MAP)" "''constructor'' \<in> set object_prototype_keys"
  "SORT_MAP_get ''downloads'' = ObjV [(''downloads'', desc), (''createdAt'', desc)]"
  by (simp_all add: obj_keys_def SORT_MAP_def SORT_MAP_get_def object_prototype_keys_def)

lemma pipeline_sort_stage:
  "buildPdfSearchPipeline a ! 3 = sort_stage (if sa_sort a = Undefined then Str ''score'' else sa_sort a)"
  by (simp add: buildPdfSearchPipeline_def Let_def)

text \<open>
  C9. The sort name "downloads" gives the order of downloads descending, then createdAt
  descending, from both builders, and "bogus" gives the score order from both. In the
  pipeline builder every name other than "downloads" and "latest" gives the score order.
  In \<^verbatim>\<open>buildListOptions\<close> the fallback is decided by the truthiness of
  \<^verbatim>\<open>SORT_MAP[sort]\<close>, which also finds the members that the object literal inherits: the
  name "constructor" is not a key of the table, and the sort that comes back is the
  inherited member, not the score order.
\<close>

theorem sort_fallback:
  "lo_sort (buildListOptions (Given (ps(''sort'' := Str k)))) =
     (if k \<in> set (obj_keys SORT_MAP) then SORT_MAP_get k
      else if k \<in> set object_prototype_keys then Builtin k
      else score_order)
   \<and> lo_sort (buildListOptions (Given (ps(''sort'' := Str ''downloads'')))) =
       ObjV [(''downloads'', desc), (''createdAt'', desc)]
   \<and> lo_sort (buildListOptions (Given (ps(''sort'' := Str ''score'')))) = score_order
   \<and> lo_sort (buildListOptions (Given (ps(''sort'' := Str ''bogus'')))) = score_order
   \<and> lo_sort (buildListOptions (Given (ps(''sort'' := Str ''constructor'')))) = Builtin ''constructor''
   \<and> Builtin ''constructor'' \<noteq> score_order
   \<and> buildPdfSearchPipeline (a\<lparr>sa_sort := Str ''downloads''\<rparr>) ! 3 =
       ObjV [(''$sort'', ObjV [(''downloads'', desc), (''createdAt'', desc)])]
   \<and> buildPdfSearchPipeline (a\<lparr>sa_sort := Str ''score''\<rparr>) ! 3 = ObjV [(''$sort'', score_order)]
   \<and> buildPdfSearchPipeline (a\<lparr>sa_sort := Str ''bogus''\<rparr>) ! 3 = ObjV [(''$sort'', score_order)]
   \<and> buildPdfSearchPipeline (a\<lparr>sa_sort := Str ''constructor''\<rparr>) ! 3 = ObjV [(''$sort'', score_order)]
   \<and> buildPdfSearchPipeline (a\<lparr>sa_sort := Str k\<rparr>) ! 3 =
       (if k = ''downloads'' then ObjV [(''$sort'', ObjV [(''downloads'', desc), (''createdAt'', desc)])]
        else if k = ''latest'' then ObjV [(''$sort'', ObjV [(''createdAt'', desc)])]
        else ObjV [(''$sort'', score_order)])"
proof -
  have l: "lo_sort (buildListOptions (Given (ps(''sort'' := Str ''downloads'')))) =
        ObjV [(''downloads'', desc), (''createdAt'', desc)]"
    "lo_sort (buildListOptions (Given (ps(''sort'' := Str ''score'')))) = score_order"
    "lo_sort (buildListOptions (Given (ps(''sort'' := Str ''bogus'')))) = score_order"
    "lo_sort (buildListOptions (Given (ps(''sort'' := Str ''constructor'')))) = Builtin ''constructor''"
    unfolding buildListOptions_sort by (simp_all add: sort_names SORT_MAP_score)
  have p: "buildPdfSearchPipeline (a\<lparr>sa_sort := Str k\<rparr>) ! 3 =
       (if k = ''downloads'' then ObjV [(''$sort'', ObjV [(''downloads'', desc), (''createdAt'', desc)])]
        else if k = ''latest'' then ObjV [(''$sort'', ObjV [(''createdAt'', desc)])]
        else ObjV [(''$sort'', score_order)])" for k
    unfolding pipeline_sort_stage by (simp add: sort_stage_def score_order_def)
  have n: "Builtin ''constructor'' \<noteq> score_order"
    by (simp add: score_order_def)
  show ?thesis
    using buildListOptions_sort [of ps k] l n p [of k] p [of "''downloads''"] p [of "''score''"]
      p [of "''bogus''"] p [of "''constructor''"]
    by simp
qed

section \<open>Dates\<close>

lemma new_Date_int:
  "new_Date (Finite (of_int t)) = (if \<bar>t\<bar> > MAX_TIME then InvalidDate else Date t)"
proof -
  have "(\<bar>(of_int t :: rat)\<bar> > of_int MAX_TIME) = (\<bar>t\<bar> > MAX_TIME)"
    by (metis of_int_abs of_int_less_iff)
  moreover have "(of_int t :: rat) < 0 \<Longrightarrow> - \<lfloor>- (of_int t :: rat)\<rfloor> = t"
    by (metis floor_of_int minus_minus of_int_minus)
  ultimately show ?thesis
    by (simp add: new_Date_def)
qed

text \<open>
  The date of a relative duration, computed with the integers, is the date that the
  arithmetic of numbers gives, whenever the clock is a time value.
\<close>

lemma date_of_number_of:
  "date_of_number (number_of d) = new_Date (Finite (of_int d))"
  using number_of_cases [of d]
  by (auto simp: date_of_number_def new_Date_int SAFE_def MAX_TIME_def)

lemma minus_last:
  assumes "\<bar>c\<bar> \<le> MAX_TIME"
    and "x = Whole y \<and> 0 \<le> y \<and> y < 2 ^ 54 \<or> 2 ^ 54 \<le> y \<and> at_least (2 ^ 54) x"
  shows "date_of_number (js_minus (Whole c) x) = new_Date (Finite (of_int (c - y)))"
  using assms(2)
proof
  assume "x = Whole y \<and> 0 \<le> y \<and> y < 2 ^ 54"
  then show ?thesis
    by (simp add: date_of_number_of del: of_int_diff)
next
  assume b: "2 ^ 54 \<le> y \<and> at_least (2 ^ 54) x"
  have far: "MAX_TIME < \<bar>c - v\<bar>" if "2 ^ 54 \<le> v" for v
  proof -
    have "18014398509481984 \<le> v" using that by simp
    then show ?thesis
      using assms(1) unfolding MAX_TIME_def by linarith
  qed
  have r: "new_Date (Finite (of_int (c - y))) = InvalidDate"
    using far [of y] b unfolding new_Date_int by simp
  show ?thesis
  proof (cases x)
    case (Whole v)
    then have "2 ^ 54 \<le> v" using b by (simp add: at_least_def)
    then have "new_Date (Finite (of_int (c - v))) = InvalidDate"
      using far [of v] unfolding new_Date_int by simp
    then show ?thesis
      unfolding Whole r by (simp add: date_of_number_of del: of_int_diff)
  next
    case PosInf
    show ?thesis unfolding PosInf r by (simp add: date_of_number_def)
  next
    case NegInf
    then show ?thesis using b by (simp add: at_least_def)
  next
    case NotANumber
    then show ?thesis using b by (simp add: at_least_def)
  qed
qed

lemma ago_of_whole:
  assumes "\<bar>clock P\<bar> \<le> MAX_TIME" "0 \<le> m"
  shows "ago_in_numbers P (number_of m) [24, 60, 60, 1000] = ago P (Some m) (24 * 60 * 60 * 1000)"
    and "ago_in_numbers P (number_of m) [60, 60, 1000] = ago P (Some m) (60 * 60 * 1000)"
    and "ago_in_numbers P (number_of m) [30, 24, 60, 60, 1000] =
      ago P (Some m) (30 * 24 * 60 * 60 * 1000)"
    and "ago_in_numbers P (number_of m) [365, 24, 60, 60, 1000] =
      ago P (Some m) (365 * 24 * 60 * 60 * 1000)"
proof -
  have k: "(1::int) \<le> 24" "(1::int) \<le> 60" "(1::int) \<le> 30" "(1::int) \<le> 365"
    by simp_all
  note s0 = number_of_start [OF assms(2)]
  show "ago_in_numbers P (number_of m) [24, 60, 60, 1000] = ago P (Some m) (24 * 60 * 60 * 1000)"
  proof -
    note s1 = times_step [OF s0 k(1)]
    note s2 = times_step [OF s1 k(2)]
    note s3 = times_step [OF s2 k(2)]
    note s4 = times_last [OF s3]
    show ?thesis
      using minus_last [OF assms(1) s4]
      by (simp add: ago_in_numbers_def ago_def mult.commute del: of_int_diff of_int_mult)
  qed
  show "ago_in_numbers P (number_of m) [60, 60, 1000] = ago P (Some m) (60 * 60 * 1000)"
  proof -
    note s2 = times_step [OF s0 k(2)]
    note s3 = times_step [OF s2 k(2)]
    note s4 = times_last [OF s3]
    show ?thesis
      using minus_last [OF assms(1) s4]
      by (simp add: ago_in_numbers_def ago_def mult.commute del: of_int_diff of_int_mult)
  qed
  show "ago_in_numbers P (number_of m) [30, 24, 60, 60, 1000] =
      ago P (Some m) (30 * 24 * 60 * 60 * 1000)"
  proof -
    note s0' = times_step [OF s0 k(3)]
    note s1 = times_step [OF s0' k(1)]
    note s2 = times_step [OF s1 k(2)]
    note s3 = times_step [OF s2 k(2)]
    note s4 = times_last [OF s3]
    show ?thesis
      using minus_last [OF assms(1) s4]
      by (simp add: ago_in_numbers_def ago_def mult.commute del: of_int_diff of_int_mult)
  qed
  show "ago_in_numbers P (number_of m) [365, 24, 60, 60, 1000] =
      ago P (Some m) (365 * 24 * 60 * 60 * 1000)"
  proof -
    note s0' = times_step [OF s0 k(4)]
    note s1 = times_step [OF s0' k(1)]
    note s2 = times_step [OF s1 k(2)]
    note s3 = times_step [OF s2 k(2)]
    note s4 = times_last [OF s3]
    show ?thesis
      using minus_last [OF assms(1) s4]
      by (simp add: ago_in_numbers_def ago_def mult.commute del: of_int_diff of_int_mult)
  qed
qed

lemma relative_date_in_numbers:
  assumes "\<bar>clock P\<bar> \<le> MAX_TIME" "ds \<noteq> []" "list_all is_digit ds"
  shows "ago_in_numbers P (js_parseInt ds) [24, 60, 60, 1000] =
      ago P (read_int ds) (24 * 60 * 60 * 1000)"
    and "ago_in_numbers P (js_parseInt ds) [60, 60, 1000] = ago P (read_int ds) (60 * 60 * 1000)"
    and "ago_in_numbers P (js_parseInt ds) [30, 24, 60, 60, 1000] =
      ago P (read_int ds) (30 * 24 * 60 * 60 * 1000)"
    and "ago_in_numbers P (js_parseInt ds) [365, 24, 60, 60, 1000] =
      ago P (read_int ds) (365 * 24 * 60 * 60 * 1000)"
proof -
  have r: "read_int ds = Some (int_of_digits ds)"
    using assms(2,3) by (rule read_int_digits)
  have p: "js_parseInt ds = number_of (int_of_digits ds)"
    by (simp add: js_parseInt_def r)
  have n: "0 \<le> int_of_digits ds"
    using assms(3) by (rule int_of_digits_nonneg)
  show "ago_in_numbers P (js_parseInt ds) [24, 60, 60, 1000] =
      ago P (read_int ds) (24 * 60 * 60 * 1000)"
    unfolding r p by (rule ago_of_whole(1) [OF assms(1) n])
  show "ago_in_numbers P (js_parseInt ds) [60, 60, 1000] = ago P (read_int ds) (60 * 60 * 1000)"
    unfolding r p by (rule ago_of_whole(2) [OF assms(1) n])
  show "ago_in_numbers P (js_parseInt ds) [30, 24, 60, 60, 1000] =
      ago P (read_int ds) (30 * 24 * 60 * 60 * 1000)"
    unfolding r p by (rule ago_of_whole(3) [OF assms(1) n])
  show "ago_in_numbers P (js_parseInt ds) [365, 24, 60, 60, 1000] =
      ago P (read_int ds) (365 * 24 * 60 * 60 * 1000)"
    unfolding r p by (rule ago_of_whole(4) [OF assms(1) n])
qed

lemma trim_id:
  assumes "s \<noteq> []" "\<not> is_space (hd s)" "\<not> is_space (last s)"
  shows "trim s = s"
proof -
  have 1: "dropWhile is_space s = s"
    using assms(1,2) by (cases s) auto
  have "rev s \<noteq> []" "\<not> is_space (hd (rev s))"
    using assms(1,3) by (simp_all add: hd_rev)
  then have 2: "dropWhile is_space (rev s) = rev s"
    by (cases "rev s") auto
  show ?thesis
    by (simp add: trim_def 1 2)
qed

lemma unit_facts:
  assumes "u \<in> set ''dhmy''"
  shows "lower_char u = u" and "\<not> is_space u"
  using assms by (auto simp: is_space_def) (code_simp+)

lemma last_facts:
  "map lower_char ''last'' = ''last''" "\<not> is_space CHR ''l''"
  by code_simp+

lemma match_relative_form:
  assumes "ds \<noteq> []" "list_all is_digit ds" "u \<in> set ''dhmy''"
  shows "match_relative (''last'' @ ds @ [u]) = Some (ds, u)"
  using assms unit_facts(1) [OF assms(3)] last_facts(1)
  by (simp add: match_relative_def Let_def)

lemma digit_lower: "is_digit c \<Longrightarrow> lower_char c = c"
  by (auto simp: is_digit_def) (code_simp+)

lemma digit_not_l: "is_digit c \<Longrightarrow> c \<noteq> CHR ''l''"
  by (auto simp: is_digit_def)

lemma match_relative_digits:
  assumes "list_all is_digit s"
  shows "match_relative s = None"
proof (cases s)
  case Nil
  then show ?thesis by (simp add: match_relative_def)
next
  case (Cons c cs)
  then have "is_digit c" using assms by simp
  then have "lower_char c \<noteq> CHR ''l''"
    using digit_lower digit_not_l by simp
  then show ?thesis
    unfolding Cons by (auto simp: match_relative_def Let_def)
qed

lemma trim_digits:
  assumes "s \<noteq> []" "list_all is_digit s"
  shows "trim s = s"
proof -
  have d: "is_digit c \<Longrightarrow> \<not> is_space c" for c
    by (auto simp: is_digit_def is_space_def)
  have "is_digit (hd s)" "is_digit (last s)"
    using assms by (simp_all add: list_all_iff)
  then show ?thesis
    using assms(1) d by (intro trim_id) auto
qed

lemma parseDate_relative:
  assumes "ds \<noteq> []" "list_all is_digit ds" "u \<in> set ''dhmy''"
  shows "parseDate P (Str (''last'' @ ds @ [u])) =
     Some (new_Date (Finite (of_int (clock P - int_of_digits ds * unit_ms u))))"
proof -
  have t: "trim (''last'' @ ds @ [u]) = ''last'' @ ds @ [u]"
    using unit_facts(2) [OF assms(3)] last_facts(2) by (intro trim_id) simp_all
  have n: "read_int ds = Some (int_of_digits ds)"
    using assms(1,2) by (rule read_int_digits)
  have "u = CHR ''d'' \<or> u = CHR ''h'' \<or> u = CHR ''m'' \<or> u = CHR ''y''"
    using assms(3) by simp
  then show ?thesis
    using unit_facts(1) [OF assms(3)]
    by (auto simp: parseDate_def t match_relative_form [OF assms] n ago_def unit_ms_def
        simp del: append.simps of_int_diff of_int_mult)
qed


lemma parseDate_numeric:
  assumes "truthy v" "match_relative (trim (js_String v)) = None"
    "to_number P (trim (js_String v)) \<noteq> NaN" "length (trim (js_String v)) \<ge> 10"
  shows "parseDate P v = valid_or_null (new_Date (to_number P (trim (js_String v))))"
  using assms by (simp add: parseDate_def Let_def)

lemma parseDate_other:
  assumes "truthy v" "match_relative (trim (js_String v)) = None"
    "to_number P (trim (js_String v)) = NaN \<or> length (trim (js_String v)) < 10"
  shows "parseDate P v = valid_or_null (new_Date (date_parse P (trim (js_String v))))"
  using assms by (auto simp: parseDate_def Let_def)

lemma parseDate_digits:
  assumes "list_all is_digit s" "length s \<ge> 10"
    "to_number P s = Finite (of_int (int_of_digits s))"
  shows "parseDate P (Str s) =
    (if int_of_digits s \<le> MAX_TIME then Some (Date (int_of_digits s)) else None)"
proof -
  have ne: "s \<noteq> []" using assms(2) by auto
  have t: "trim s = s" using ne assms(1) by (rule trim_digits)
  have "parseDate P (Str s) = valid_or_null (new_Date (to_number P s))"
    using parseDate_numeric [of "Str s" P] ne assms match_relative_digits [OF assms(1)]
    by (simp add: t)
  then show ?thesis
    using int_of_digits_nonneg [OF assms(1)]
    by (simp add: assms(3) new_Date_int valid_or_null_def del: of_int_diff of_int_mult)
qed

text \<open>
  C7, as the code has it. A string \<^verbatim>\<open>last<N><unit>\<close> gives the date of the current time
  minus N units, with d = 86400000 ms, h = 3600000 ms, m = 30 days and y = 365 days,
  whenever that instant lies in the range of \<^verbatim>\<open>Date\<close>, 8.64e15 ms to either side of
  the epoch; so "last7d" gives the clock minus 7 * 86400000 ms. A string of ten or more
  characters that \<^verbatim>\<open>Number\<close> reads as a number (a string of decimal digits, for one)
  gives the date with that millisecond timestamp when it lies in the range, and
  \<^verbatim>\<open>null\<close> beyond. Every other string goes to the date parser of the runtime, which
  reads ISO-8601, and gives \<^verbatim>\<open>null\<close> when that fails.
\<close>

theorem parseDate_forms:
  "(ds \<noteq> [] \<and> list_all is_digit ds \<and> u \<in> set ''dhmy''
      \<and> \<bar>clock P - int_of_digits ds * unit_ms u\<bar> \<le> MAX_TIME
      \<longrightarrow> parseDate P (Str (''last'' @ ds @ [u])) =
            Some (Date (clock P - int_of_digits ds * unit_ms u)))
   \<and> (\<bar>clock P - 7 * 86400000\<bar> \<le> MAX_TIME
      \<longrightarrow> parseDate P (Str ''last7d'') = Some (Date (clock P - 7 * 86400000)))
   \<and> (list_all is_digit s \<and> length s \<ge> 10 \<and> to_number P s = Finite (of_int (int_of_digits s))
      \<longrightarrow> parseDate P (Str s) =
            (if int_of_digits s \<le> MAX_TIME then Some (Date (int_of_digits s)) else None))
   \<and> (truthy v \<and> match_relative (trim (js_String v)) = None
      \<and> to_number P (trim (js_String v)) \<noteq> NaN \<and> length (trim (js_String v)) \<ge> 10
      \<longrightarrow> parseDate P v = valid_or_null (new_Date (to_number P (trim (js_String v)))))
   \<and> (truthy v \<and> match_relative (trim (js_String v)) = None
      \<and> (to_number P (trim (js_String v)) = NaN \<or> length (trim (js_String v)) < 10)
      \<longrightarrow> parseDate P v = valid_or_null (new_Date (date_parse P (trim (js_String v)))))"
proof -
  have r: "parseDate P (Str (''last'' @ ds @ [u])) =
      Some (Date (clock P - int_of_digits ds * unit_ms u))"
    if "ds \<noteq> []" "list_all is_digit ds" "u \<in> set ''dhmy''"
      "\<bar>clock P - int_of_digits ds * unit_ms u\<bar> \<le> MAX_TIME" for ds u
    using that by (simp add: parseDate_relative new_Date_int del: append.simps of_int_diff of_int_mult)
  have d7: "list_all is_digit ''7''" "int_of_digits ''7'' = 7" "unit_ms CHR ''d'' = 86400000"
    by code_simp+
  have 7: "parseDate P (Str ''last7d'') = Some (Date (clock P - 7 * 86400000))"
    if "\<bar>clock P - 7 * 86400000\<bar> \<le> MAX_TIME"
    using r [of "''7''" "CHR ''d''"] that d7 by simp
  show ?thesis
    using r [of ds u] 7 parseDate_digits [of s P] parseDate_numeric [of v P]
      parseDate_other [of v P]
    by blast
qed

theorem parseDate_forms_witness:
  "parseDate sample_platform (Str ''last30d'') = Some (Date (1700000000000 - 30 * 86400000))
   \<and> parseDate sample_platform (Str ''last7d'') = Some (Date (1700000000000 - 7 * 86400000))
   \<and> parseDate sample_platform (Str ''1700000000000'') = Some (Date 1700000000000)
   \<and> parseDate sample_platform (Str '' 1700000000000 '') = Some (Date 1700000000000)
   \<and> parseDate sample_platform (Str ''2023-01-01'') = Some (Date 1672531200000)"
proof -
  have a: "''30'' \<noteq> [] \<and> list_all is_digit ''30'' \<and> CHR ''d'' \<in> set ''dhmy''
      \<and> \<bar>clock sample_platform - int_of_digits ''30'' * unit_ms CHR ''d''\<bar> \<le> MAX_TIME"
    by code_simp
  have a': "clock sample_platform - int_of_digits ''30'' * unit_ms CHR ''d'' =
      1700000000000 - 30 * 86400000"
    by code_simp
  have b: "\<bar>clock sample_platform - 7 * 86400000\<bar> \<le> MAX_TIME"
    "clock sample_platform = 1700000000000"
    by code_simp+
  have c: "list_all is_digit ''1700000000000'' \<and> length ''1700000000000'' \<ge> 10
      \<and> to_number sample_platform ''1700000000000'' = Finite (of_int (int_of_digits ''1700000000000''))"
    by (simp add: sample_platform_def is_digit_def)
  have c': "int_of_digits ''1700000000000'' = 1700000000000" "(1700000000000::int) \<le> MAX_TIME"
    by code_simp+
  have d: "truthy (Str '' 1700000000000 '') \<and> match_relative (trim (js_String (Str '' 1700000000000 ''))) = None
      \<and> to_number sample_platform (trim (js_String (Str '' 1700000000000 ''))) \<noteq> NaN
      \<and> length (trim (js_String (Str '' 1700000000000 ''))) \<ge> 10"
    by code_simp
  have d': "valid_or_null (new_Date (to_number sample_platform (trim (js_String (Str '' 1700000000000 ''))))) =
      Some (Date 1700000000000)"
    by code_simp
  have e: "truthy (Str ''2023-01-01'') \<and> match_relative (trim (js_String (Str ''2023-01-01''))) = None
      \<and> (to_number sample_platform (trim (js_String (Str ''2023-01-01''))) = NaN
         \<or> length (trim (js_String (Str ''2023-01-01''))) < 10)"
    by code_simp
  have e': "valid_or_null (new_Date (date_parse sample_platform (trim (js_String (Str ''2023-01-01''))))) =
      Some (Date 1672531200000)"
    by code_simp
  note T = parseDate_forms [of "''30''" "CHR ''d''" sample_platform "''1700000000000''"
      "Str '' 1700000000000 ''"]
  note U = parseDate_forms [of "''30''" "CHR ''d''" sample_platform "''1700000000000''"
      "Str ''2023-01-01''"]
  have s30: "''last'' @ ''30'' @ [CHR ''d''] = ''last30d''" by simp
  have 1: "parseDate sample_platform (Str ''last30d'') = Some (Date (1700000000000 - 30 * 86400000))"
    using T a unfolding a' s30 by blast
  have 2: "parseDate sample_platform (Str ''last7d'') = Some (Date (1700000000000 - 7 * 86400000))"
    using T b(1) unfolding b(2) by blast
  have 3: "parseDate sample_platform (Str ''1700000000000'') = Some (Date 1700000000000)"
    using T c c'(2) unfolding c'(1) by (simp only: if_True simp_thms)
  have 4: "parseDate sample_platform (Str '' 1700000000000 '') = Some (Date 1700000000000)"
    using T d unfolding d' by blast
  have 5: "parseDate sample_platform (Str ''2023-01-01'') = Some (Date 1672531200000)"
    using U e unfolding e' by blast
  show ?thesis
    using 1 2 3 4 5 by (simp only: simp_thms)
qed

text \<open>
  Beyond the range of \<^verbatim>\<open>Date\<close>: a thousand million days back is no instant, and the
  date that comes back is invalid; the timestamp 1e16 gives \<^verbatim>\<open>null\<close>.
\<close>

theorem parseDate_range_counterexample:
  "parseDate sample_platform (Str ''last1000000000d'') = Some InvalidDate
   \<and> parseDate sample_platform (Str ''10000000000000000'') = None"
  by code_simp

section \<open>Malformed input\<close>

lemma not_a_date_facts:
  "truthy (Str ''not-a-date'')" "trim (js_String (Str ''not-a-date'')) = ''not-a-date''"
  "match_relative ''not-a-date'' = None"
  by code_simp+

lemma garbage_facts:
  "parseInteger (Str ''abc'') fb = Fallback fb"
  "parseBoolean (Str ''maybe'') w = w"
  "parseList Undefined = []" "parseList Null = []" "parseList (Str '', ,'') = []"
  by (simp_all add: parseInteger_abc parseList_def) (code_simp+)

lemma garbage_options:
  "buildListOptions
     (Given (no_params(''page'' := Str ''x'', ''limit'' := Bool True, ''sort'' := Number ''5''))) =
   default_options"
proof -
  let ?ps = "no_params(''page'' := Str ''x'', ''limit'' := Bool True, ''sort'' := Number ''5'')"
  have 1: "parseInteger (Str ''x'') () = Fallback ()" "parseInteger (Bool True) () = Fallback ()"
    by (simp_all add: parseInteger_read read_int_def is_space_def is_digit_def)
  have p: "lo_page (buildListOptions (Given ?ps)) = Whole 1"
    unfolding buildListOptions_page by (simp add: 1)
  have l: "lo_limit (buildListOptions (Given ?ps)) = Whole 12"
    unfolding buildListOptions_limit by (simp add: 1)
  have k: "lo_skip (buildListOptions (Given ?ps)) = Whole 0"
    unfolding buildListOptions_skip p l by (simp add: number_of_small SAFE_def)
  have s: "lo_sort (buildListOptions (Given ?ps)) = score_order"
    by (simp add: buildListOptions_def Let_def SORT_MAP_score)
  show ?thesis
    using p l k s by (cases "buildListOptions (Given ?ps)") (simp add: default_options_def)
qed

lemma null_options: "buildListOptions Null_given = default_options"
  using buildListOptions_blank [of no_params]
  by (simp add: buildListOptions_no_object no_params_blank)

text \<open>
  C6. The claim fails at \<^verbatim>\<open>null\<close>. \<^verbatim>\<open>buildMongoFilters(null)\<close> raises a \<^verbatim>\<open>TypeError\<close>: the
  default of the parameter stands in for \<^verbatim>\<open>undefined\<close> only, and the destructuring of
  \<^verbatim>\<open>opts\<close> follows with no test. The wrapper raises on \<^verbatim>\<open>null\<close> in the same way, where it
  reads \<^verbatim>\<open>query.get\<close>. \<^verbatim>\<open>buildListOptions\<close>, which goes on with \<^verbatim>\<open>opts || {}\<close>, reads
  \<^verbatim>\<open>null\<close> as the empty object and returns the default options. With no argument or
  with an object of the parameter values modelled, the filter builder and the wrapper
  return: the one operation in them that can raise on such values is the compilation of
  the keyword pattern, and the escaping keeps it from raising. Input that cannot be read
  gives the fallback or the default: "abc" as an integer, "maybe" as a boolean, a list
  of commas and blanks, and list options of the wrong kind. \<^verbatim>\<open>parseDate("not-a-date")\<close>
  is \<^verbatim>\<open>null\<close> on every runtime where that string is neither a number nor a date.
\<close>

theorem null_argument_raises:
  "buildMongoFilters P Null_given = Inl TypeError
   \<and> buildPdfFiltersAndOptions P Null_given = Inl TypeError
   \<and> buildListOptions Null_given = default_options
   \<and> (\<exists>f. buildMongoFilters P Omitted = Inr f)
   \<and> (\<exists>f. buildMongoFilters P (Given ps) = Inr f)
   \<and> (\<exists>r. buildPdfFiltersAndOptions P Omitted = Inr r)
   \<and> (\<exists>r. buildPdfFiltersAndOptions P (Given q) = Inr r)
   \<and> parseInteger (Str ''abc'') fb = Fallback fb
   \<and> parseBoolean (Str ''maybe'') w = w
   \<and> parseList Undefined = [] \<and> parseList Null = [] \<and> parseList (Str '', ,'') = []
   \<and> buildListOptions
        (Given (no_params(''page'' := Str ''x'', ''limit'' := Bool True, ''sort'' := Number ''5''))) =
      default_options
   \<and> (to_number P ''not-a-date'' = NaN \<and> date_parse P ''not-a-date'' = NaN
        \<longrightarrow> parseDate P (Str ''not-a-date'') = None)"
proof -
  have d: "parseDate P (Str ''not-a-date'') = None"
    if "to_number P ''not-a-date'' = NaN \<and> date_parse P ''not-a-date'' = NaN"
    using parseDate_other [of "Str ''not-a-date''" P] that not_a_date_facts
    by (simp add: new_Date_def valid_or_null_def)
  have d': "to_number P ''not-a-date'' = NaN \<and> date_parse P ''not-a-date'' = NaN
      \<longrightarrow> parseDate P (Str ''not-a-date'') = None"
    using d by blast
  have f: "\<exists>f. buildMongoFilters P (Given ps) = Inr f" for ps
    using buildMongoFilters_keys [of P ps] by blast
  have f0: "\<exists>f. buildMongoFilters P Omitted = Inr f"
    using f [of no_params] by (simp add: buildMongoFilters_Omitted)
  have r: "\<exists>r. buildPdfFiltersAndOptions P (Given q) = Inr r" for q
    using wrapper_keys [of P q] by blast
  have r0: "\<exists>r. buildPdfFiltersAndOptions P Omitted = Inr r"
    using r [of "PlainObject no_params"] by (simp add: wrapper_Omitted)
  show ?thesis
    by (intro conjI buildMongoFilters_null wrapper_null null_options f0 f r0 r garbage_facts
        garbage_options d')
qed

theorem null_argument_raises_witness:
  "parseDate sample_platform (Str ''not-a-date'') = None"
proof -
  have "to_number sample_platform ''not-a-date'' = NaN \<and> date_parse sample_platform ''not-a-date'' = NaN"
    by code_simp
  then show ?thesis
    using null_argument_raises [of sample_platform no_params "PlainObject no_params" "()" Undefined]
    by (simp only: simp_thms)
qed

section \<open>The fan-out stage and the envelope\<close>

text \<open>
  The skip of the pipeline, computed with the integers, is the skip that the arithmetic
  of numbers gives as long as it is at most \<open>2 ^ 53\<close>.
\<close>

lemma skip_in_numbers:
  assumes "1 \<le> page" "1 \<le> limit" "(page - 1) * limit \<le> SAFE"
  shows "js_times (js_minus (Whole page) (Whole 1)) (Whole limit) = Whole ((page - 1) * limit)"
proof -
  have "(page - 1) * 1 \<le> (page - 1) * limit"
    using assms(1,2) by (intro mult_left_mono) simp_all
  then have 1: "\<bar>page - 1\<bar> \<le> SAFE"
    using assms(1,3) by simp
  have "0 \<le> (page - 1) * limit"
    using assms(1,2) by simp
  then have 2: "\<bar>(page - 1) * limit\<bar> \<le> SAFE"
    using assms(3) by simp
  show ?thesis
    by (simp add: number_of_small [OF 1] number_of_small [OF 2])
qed










section \<open>The clauses of the search stage\<close>

lemma pipeline_compound:
  "compound_of (buildPdfSearchPipeline a) =
     ObjV [(''should'', list_or_undefined (should_clauses a)),
           (''must'', list_or_undefined (must_clauses a))]"
  by (simp add: buildPdfSearchPipeline_def Let_def compound_of_def search_stage_def obj_get_def)

lemma pipeline_clauses:
  "clause_list (compound_of (buildPdfSearchPipeline a)) ''should'' = should_clauses a"
  "clause_list (compound_of (buildPdfSearchPipeline a)) ''must'' = must_clauses a"
  by (simp_all add: pipeline_compound clause_list_def obj_get_def list_or_undefined_def)

lemma must_clauses_eq:
  "must_clauses a =
     (if truthy (sa_language a) then [equals_clause ''language'' (sa_language a)] else [])
     @ (if truthy (sa_category a) then [equals_clause ''category'' (sa_category a)] else [])
     @ (if has_length (sa_locations a) then [in_clause ''locations'' (sa_locations a)] else [])"
  by (simp add: must_clauses_def Let_def)

text \<open>
  C5. The text clause is in the compound exactly when the term \<^verbatim>\<open>q\<close> is there and not
  empty, the equality clauses for language and category exactly when these are there
  and not empty, and the membership clause for locations exactly when the list of
  locations is not empty. The clauses are not combined with AND: the builder puts the
  filter clauses into the \<^verbatim>\<open>must\<close> list and the text clause into the \<^verbatim>\<open>should\<close> list, and
  a compound with a \<^verbatim>\<open>must\<close> clause returns a record whether it matches a \<^verbatim>\<open>should\<close>
  clause or not. So the search for "algebra" within the language "en" returns a record
  in that language that does not match the term, a record that the same search without
  the language does not return: the filter widens the result.
\<close>

theorem search_clauses:
  "clause_list (compound_of (buildPdfSearchPipeline a)) ''should'' =
     (if truthy (sa_q a) then [text_clause (sa_q a)] else [])
   \<and> clause_list (compound_of (buildPdfSearchPipeline a)) ''must'' =
       (if truthy (sa_language a) then [equals_clause ''language'' (sa_language a)] else [])
       @ (if truthy (sa_category a) then [equals_clause ''category'' (sa_category a)] else [])
       @ (if has_length (sa_locations a) then [in_clause ''locations'' (sa_locations a)] else [])
   \<and> compound_accepts matches (compound_of (buildPdfSearchPipeline a)) =
       (list_all matches (must_clauses a)
        \<and> (if must_clauses a = [] \<and> truthy (sa_q a) then matches (text_clause (sa_q a)) else True))
   \<and> clause_list (compound_of (buildPdfSearchPipeline
         (a\<lparr>sa_q := Str (c # s), sa_language := Str ''en'', sa_category := Undefined,
            sa_locations := Undefined\<rparr>))) ''should'' = [text_clause (Str (c # s))]
   \<and> clause_list (compound_of (buildPdfSearchPipeline
         (a\<lparr>sa_q := Str (c # s), sa_language := Str ''en'', sa_category := Undefined,
            sa_locations := Undefined\<rparr>))) ''must'' = [equals_clause ''language'' (Str ''en'')]
   \<and> clause_list (compound_of (buildPdfSearchPipeline sample_search)) ''should'' =
       [text_clause (Str ''algebra'')]
   \<and> clause_list (compound_of (buildPdfSearchPipeline sample_search)) ''must'' =
       [equals_clause ''language'' (Str ''en'')]
   \<and> english_without_term (equals_clause ''language'' (Str ''en''))
   \<and> \<not> english_without_term (text_clause (Str ''algebra''))
   \<and> compound_accepts english_without_term (compound_of (buildPdfSearchPipeline sample_search))
   \<and> \<not> compound_accepts english_without_term
         (compound_of (buildPdfSearchPipeline (sample_search\<lparr>sa_language := Undefined\<rparr>)))"
proof -
  have 1: "clause_list (compound_of (buildPdfSearchPipeline a)) ''should'' =
      (if truthy (sa_q a) then [text_clause (sa_q a)] else [])" for a
    by (simp add: pipeline_clauses should_clauses_def)
  have 2: "clause_list (compound_of (buildPdfSearchPipeline a)) ''must'' =
       (if truthy (sa_language a) then [equals_clause ''language'' (sa_language a)] else [])
       @ (if truthy (sa_category a) then [equals_clause ''category'' (sa_category a)] else [])
       @ (if has_length (sa_locations a) then [in_clause ''locations'' (sa_locations a)] else [])" for a
    by (simp only: pipeline_clauses must_clauses_eq)
  have 3: "compound_accepts matches (compound_of (buildPdfSearchPipeline a)) =
       (list_all matches (must_clauses a)
        \<and> (if must_clauses a = [] \<and> truthy (sa_q a) then matches (text_clause (sa_q a)) else True))"
    for matches a
    by (simp add: compound_accepts_def pipeline_clauses should_clauses_def Let_def)
  let ?b = "a\<lparr>sa_q := Str (c # s), sa_language := Str ''en'', sa_category := Undefined,
            sa_locations := Undefined\<rparr>"
  have 4: "clause_list (compound_of (buildPdfSearchPipeline ?b)) ''should'' = [text_clause (Str (c # s))]"
    unfolding 1 by simp
  have 5: "clause_list (compound_of (buildPdfSearchPipeline ?b)) ''must'' =
      [equals_clause ''language'' (Str ''en'')]"
    unfolding 2 by (simp add: has_length_def)
  have 6: "clause_list (compound_of (buildPdfSearchPipeline sample_search)) ''should'' =
      [text_clause (Str ''algebra'')]"
    unfolding 1 by (simp add: sample_search_def)
  have 7: "clause_list (compound_of (buildPdfSearchPipeline sample_search)) ''must'' =
      [equals_clause ''language'' (Str ''en'')]"
    unfolding 2 by (simp add: sample_search_def has_length_def)
  have 8: "english_without_term (equals_clause ''language'' (Str ''en''))"
    by (simp add: english_without_term_def)
  have 9: "\<not> english_without_term (text_clause (Str ''algebra''))"
    by (simp add: english_without_term_def text_clause_def equals_clause_def)
  have m: "must_clauses sample_search = [equals_clause ''language'' (Str ''en'')]"
    "must_clauses (sample_search\<lparr>sa_language := Undefined\<rparr>) = []"
    "sa_q sample_search = Str ''algebra''"
    "sa_q (sample_search\<lparr>sa_language := Undefined\<rparr>) = Str ''algebra''"
    by (simp_all add: must_clauses_eq sample_search_def has_length_def)
  have 10: "compound_accepts english_without_term (compound_of (buildPdfSearchPipeline sample_search))"
    unfolding 3 m using 8 by simp
  have 11: "\<not> compound_accepts english_without_term
      (compound_of (buildPdfSearchPipeline (sample_search\<lparr>sa_language := Undefined\<rparr>)))"
    unfolding 3 m using 9 by simp
  show ?thesis
    by (intro conjI 1 2 3 4 5 6 7 8 9 10 11)
qed

end
